theory Spec2Isabelle
  imports Complex_Main
begin

section \<open>NumPy values and arrays\<close>

text \<open>
  The notebooks compute on NumPy arrays of \<^verbatim>\<open>float64\<close>. A finite float is idealised
  as an exact rational; the three special values that NumPy produces on a division by
  zero (with a warning, never an exception) are kept as constructors of their own.
\<close>

datatype npfloat = Fin rat | NaN | PInf | NInf

text \<open>The Python exceptions that the NumPy calls of the notebooks can raise.\<close>

datatype py_error = ValueError | IndexError | KeyError

text \<open>
  A two-dimensional \<^verbatim>\<open>ndarray\<close>: its shape and its rows. An \<^verbatim>\<open>ndarray\<close> is
  rectangular by construction, which \<open>wf_array2\<close> states.
\<close>

record 'a array2 =
  shape0 :: nat
  shape1 :: nat
  rows :: "'a list list"

definition wf_array2 :: "'a array2 \<Rightarrow> bool" where
  "wf_array2 a \<longleftrightarrow>
     length (rows a) = shape0 a \<and> list_all (\<lambda>r. length r = shape1 a) (rows a)"

definition at2 :: "'a array2 \<Rightarrow> nat \<Rightarrow> nat \<Rightarrow> 'a" where
  "at2 a i j = rows a ! i ! j"

text \<open>\<^verbatim>\<open>np.array(rs)\<close> for a rectangular nested list \<open>rs\<close>.\<close>

definition np_array2 :: "'a list list \<Rightarrow> 'a array2" where
  "np_array2 rs =
     \<lparr>shape0 = length rs, shape1 = (case rs of [] \<Rightarrow> 0 | r # _ \<Rightarrow> length r), rows = rs\<rparr>"

text \<open>\<^verbatim>\<open>np.zeros((n, m))\<close>.\<close>

definition np_zeros :: "nat \<Rightarrow> nat \<Rightarrow> rat list list" where
  "np_zeros n m = replicate n (replicate m 0)"

text \<open>
  \<^verbatim>\<open>x / n\<close> for a finite float \<open>x\<close> and an integer count \<open>n\<close>: NumPy's true division
  yields \<^verbatim>\<open>nan\<close> for \<^verbatim>\<open>0.0 / 0\<close> and a signed infinity for any other division by zero.
\<close>

definition np_divide :: "rat \<Rightarrow> nat \<Rightarrow> npfloat" where
  "np_divide x n =
     (if n = 0 then (if x = 0 then NaN else if 0 < x then PInf else NInf)
      else Fin (x / of_nat n))"

section \<open>The random-forest kernel matrix\<close>

text \<open>
  \<^verbatim>\<open>
  rf_kernel_matrix = np.zeros((subset_size, subset_size))
  leaf_indices = model.apply(X_subset.reshape(-1,28*28))
  for leaf_vector in leaf_indices.T:
      rf_kernel_matrix += leaf_vector[:, None] == leaf_vector[None, :]
  rf_kernel_matrix /= leaf_indices.shape[1]
  \<close>
  \<open>leaf_indices\<close> has one row per sample of the subset, so \<open>subset_size\<close> is its
  first dimension.
\<close>

text \<open>Iterating over \<^verbatim>\<open>leaf_indices.T\<close> visits the columns, first to last.\<close>

definition columns :: "'a array2 \<Rightarrow> 'a list list" where
  "columns a = map (\<lambda>t. map (\<lambda>r. r ! t) (rows a)) [0..<shape1 a]"

text \<open>\<^verbatim>\<open>leaf_vector[:, None] == leaf_vector[None, :]\<close>: the outer equality table.\<close>

definition outer_eq :: "int list \<Rightarrow> bool list list" where
  "outer_eq leaf_vector = map (\<lambda>x. map (\<lambda>y. x = y) leaf_vector) leaf_vector"

text \<open>\<^verbatim>\<open>m += b\<close> for a float matrix and a Boolean matrix of the same shape.\<close>

definition iadd_bool :: "rat list list \<Rightarrow> bool list list \<Rightarrow> rat list list" where
  "iadd_bool m b = map2 (\<lambda>mr br. map2 (\<lambda>x c. x + (if c then 1 else 0)) mr br) m b"

fun accumulate :: "int list list \<Rightarrow> rat list list \<Rightarrow> rat list list" where
  "accumulate [] m = m"
| "accumulate (leaf_vector # rest) m = accumulate rest (iadd_bool m (outer_eq leaf_vector))"

definition rf_kernel_matrix :: "int array2 \<Rightarrow> npfloat array2" where
  "rf_kernel_matrix leaf_indices =
     (let subset_size = shape0 leaf_indices;
          m = accumulate (columns leaf_indices) (np_zeros subset_size subset_size)
      in \<lparr>shape0 = subset_size, shape1 = subset_size,
          rows = map (map (\<lambda>x. np_divide x (shape1 leaf_indices))) m\<rparr>)"

text \<open>
  The interface \<open>build_kernel\<close> of the specification is this computation. None of its
  steps raises, so the call always returns.
\<close>

definition build_kernel :: "int array2 \<Rightarrow> py_error + npfloat array2" where
  "build_kernel leaf_indices = Inr (rf_kernel_matrix leaf_indices)"

section \<open>Arithmetic on NumPy floats\<close>

text \<open>
  IEEE-754 addition, negation and squaring, exact on finite values. \<^verbatim>\<open>nan\<close> is
  absorbing and \<^verbatim>\<open>inf - inf\<close> is \<^verbatim>\<open>nan\<close>.
\<close>

fun np_add :: "npfloat \<Rightarrow> npfloat \<Rightarrow> npfloat" where
  "np_add (Fin a) (Fin b) = Fin (a + b)"
| "np_add NaN _ = NaN"
| "np_add _ NaN = NaN"
| "np_add PInf NInf = NaN"
| "np_add NInf PInf = NaN"
| "np_add PInf _ = PInf"
| "np_add _ PInf = PInf"
| "np_add NInf _ = NInf"
| "np_add _ NInf = NInf"

fun np_negative :: "npfloat \<Rightarrow> npfloat" where
  "np_negative (Fin a) = Fin (- a)"
| "np_negative NaN = NaN"
| "np_negative PInf = NInf"
| "np_negative NInf = PInf"

definition np_subtract :: "npfloat \<Rightarrow> npfloat \<Rightarrow> npfloat" where
  "np_subtract x y = np_add x (np_negative y)"

text \<open>\<^verbatim>\<open>x**2\<close>.\<close>

fun np_square :: "npfloat \<Rightarrow> npfloat" where
  "np_square (Fin a) = Fin (a * a)"
| "np_square NaN = NaN"
| "np_square PInf = PInf"
| "np_square NInf = PInf"

text \<open>\<^verbatim>\<open>.sum()\<close> of a one-dimensional float array; the empty sum is \<^verbatim>\<open>0.0\<close>.\<close>

fun np_sum :: "npfloat list \<Rightarrow> npfloat" where
  "np_sum [] = Fin 0"
| "np_sum (x # xs) = np_add x (np_sum xs)"

text \<open>The IEEE comparison \<^verbatim>\<open>x <= y\<close>: false as soon as one side is \<^verbatim>\<open>nan\<close>.\<close>

fun np_le :: "npfloat \<Rightarrow> npfloat \<Rightarrow> bool" where
  "np_le (Fin a) (Fin b) \<longleftrightarrow> a \<le> b"
| "np_le NaN _ \<longleftrightarrow> False"
| "np_le _ NaN \<longleftrightarrow> False"
| "np_le NInf _ \<longleftrightarrow> True"
| "np_le _ PInf \<longleftrightarrow> True"
| "np_le PInf _ \<longleftrightarrow> False"
| "np_le _ NInf \<longleftrightarrow> False"

text \<open>
  \<^verbatim>\<open>np.argmin\<close> and \<^verbatim>\<open>np.argmax\<close> raise \<^verbatim>\<open>ValueError\<close> on an empty array. Otherwise
  they scan from the left, keep the first extremal element, and stop at the first
  \<^verbatim>\<open>nan\<close>, whose index is then the result. \<open>mp\<close> is the extremum so far, \<open>ind\<close> its
  index and \<open>i\<close> the index of the element looked at.
\<close>

fun argmin_scan :: "npfloat list \<Rightarrow> nat \<Rightarrow> npfloat \<Rightarrow> nat \<Rightarrow> nat" where
  "argmin_scan [] i mp ind = ind"
| "argmin_scan (x # xs) i mp ind =
     (if \<not> np_le mp x then (if x = NaN then i else argmin_scan xs (Suc i) x i)
      else argmin_scan xs (Suc i) mp ind)"

definition np_argmin :: "npfloat list \<Rightarrow> py_error + nat" where
  "np_argmin xs =
     (case xs of [] \<Rightarrow> Inl ValueError
      | x # rest \<Rightarrow> Inr (if x = NaN then 0 else argmin_scan rest 1 x 0))"

fun argmax_scan :: "npfloat list \<Rightarrow> nat \<Rightarrow> npfloat \<Rightarrow> nat \<Rightarrow> nat" where
  "argmax_scan [] i mp ind = ind"
| "argmax_scan (x # xs) i mp ind =
     (if \<not> np_le x mp then (if x = NaN then i else argmax_scan xs (Suc i) x i)
      else argmax_scan xs (Suc i) mp ind)"

definition np_argmax :: "npfloat list \<Rightarrow> py_error + nat" where
  "np_argmax xs =
     (case xs of [] \<Rightarrow> Inl ValueError
      | x # rest \<Rightarrow> Inr (if x = NaN then 0 else argmax_scan rest 1 x 0))"

section \<open>Indexing and reductions\<close>

text \<open>Sequencing of calls that may raise: the first exception ends the computation.\<close>

definition bind :: "py_error + 'a \<Rightarrow> ('a \<Rightarrow> py_error + 'b) \<Rightarrow> py_error + 'b" where
  "bind r f = (case r of Inl e \<Rightarrow> Inl e | Inr x \<Rightarrow> f x)"

text \<open>
  \<^verbatim>\<open>xs[bmask]\<close> for a one-dimensional array and a Boolean mask: \<^verbatim>\<open>IndexError\<close> unless
  the mask is as long as the array.
\<close>

definition np_mask1 :: "'a list \<Rightarrow> bool list \<Rightarrow> py_error + 'a list" where
  "np_mask1 xs bmask =
     (if length bmask = length xs then Inr (map fst (filter snd (zip xs bmask)))
      else Inl IndexError)"

text \<open>\<^verbatim>\<open>a[bmask]\<close> for a two-dimensional array: the mask selects rows.\<close>

definition np_mask2 :: "'a array2 \<Rightarrow> bool list \<Rightarrow> py_error + 'a array2" where
  "np_mask2 a bmask =
     (if length bmask = shape0 a
      then (let rs = map fst (filter snd (zip (rows a) bmask))
            in Inr \<lparr>shape0 = length rs, shape1 = shape1 a, rows = rs\<rparr>)
      else Inl IndexError)"

text \<open>
  \<^verbatim>\<open>a[idx]\<close> for an integer index array: each index \<open>k\<close> must satisfy
  \<open>-n \<le> k < n\<close> for the \<open>n\<close> rows of \<open>a\<close>, a negative one counting from the end.
\<close>

definition np_take :: "'a array2 \<Rightarrow> int list \<Rightarrow> py_error + 'a array2" where
  "np_take a idx =
     (let n = int (shape0 a)
      in if list_all (\<lambda>k. - n \<le> k \<and> k < n) idx
         then Inr \<lparr>shape0 = length idx, shape1 = shape1 a,
                   rows = map (\<lambda>k. rows a ! nat (if k < 0 then k + n else k)) idx\<rparr>
         else Inl IndexError)"

text \<open>\<^verbatim>\<open>np.where(xs == v)[0]\<close>: the positions holding \<open>v\<close>, ascending.\<close>

definition np_where_eq :: "int list \<Rightarrow> int \<Rightarrow> nat list" where
  "np_where_eq xs v = filter (\<lambda>i. xs ! i = v) [0..<length xs]"

text \<open>\<^verbatim>\<open>np.unique(xs)\<close>: the distinct values, ascending.\<close>

definition np_unique :: "int list \<Rightarrow> int list" where
  "np_unique xs = sort (remdups xs)"

text \<open>\<^verbatim>\<open>np.eye(3)\<close>.\<close>

definition eye3 :: "rat array2" where
  "eye3 = \<lparr>shape0 = 3, shape1 = 3, rows = [[1, 0, 0], [0, 1, 0], [0, 0, 1]]\<rparr>"

text \<open>
  \<^verbatim>\<open>a.mean(axis=0)\<close>: per column, the sum of the column divided by the number of rows.
  With no rows every column sum is \<^verbatim>\<open>0.0\<close> and the result is \<^verbatim>\<open>nan\<close> throughout.
\<close>

definition mean_axis0 :: "rat array2 \<Rightarrow> npfloat list" where
  "mean_axis0 a =
     map (\<lambda>j. np_divide (sum_list (map (\<lambda>r. r ! j) (rows a))) (shape0 a)) [0..<shape1 a]"

text \<open>\<^verbatim>\<open>((a - proto)**2).sum(axis=1)\<close>, \<open>proto\<close> broadcast along the rows of \<open>a\<close>.\<close>

definition sq_dists :: "rat array2 \<Rightarrow> npfloat list \<Rightarrow> npfloat list" where
  "sq_dists a proto =
     map (\<lambda>r. np_sum (map2 (\<lambda>x p. np_square (np_subtract (Fin x) p)) r proto)) (rows a)"

section \<open>Drift regions\<close>






section \<open>Characteristic samples and counterfactuals\<close>

text \<open>
  \<^verbatim>\<open>
  counterfactuals = []
  for cluster_id in np.unique(cluster):
      cf = dict()
      cf["region_dist"] = np.eye(3)[regions[cluster == cluster_id]+1].mean(axis=0)
      cf["region"] = [-1,0,1][np.argmax(cf["region_dist"])]
      cf["sample_euc"] = dict()
      cf["sample_rfk"] = dict()
      cf["proto_rfk"] = proj_proto = proj[cluster == cluster_id].mean(axis=0)
      cf["proto_euc"] = X_proto = X_subset[cluster == cluster_id].mean(axis=0)
      for region in [-1,0,1]:
          sel = np.where(regions == region)[0]
          cf["sample_euc"][region] = sel[np.argmin( ((X_subset[sel] - X_proto)**2).sum(axis=1) )]
          cf["sample_rfk"][region] = sel[np.argmin( ((proj[sel] - proj_proto)**2).sum(axis=1) )]
      counterfactuals.append(cf)
  \<close>
  A Python \<^verbatim>\<open>dict\<close> keeps its keys in insertion order: an association list.
\<close>

type_synonym sample_dict = "(int \<times> nat) list"

fun dict_set :: "sample_dict \<Rightarrow> int \<Rightarrow> nat \<Rightarrow> sample_dict" where
  "dict_set [] k v = [(k, v)]"
| "dict_set ((k', v') # d) k v = (if k' = k then (k, v) # d else (k', v') # dict_set d k v)"


record cf_record =
  region_dist :: "npfloat list"
  region :: int
  sample_euc :: sample_dict
  sample_rfk :: sample_dict
  proto_rfk :: "npfloat list"
  proto_euc :: "npfloat list"

text \<open>
  The inner loop over the region values. The index that \<^verbatim>\<open>np.argmin\<close> returns is a
  position of \<open>sel\<close>, so \<^verbatim>\<open>sel[...]\<close> is always in range.
\<close>

fun nearest_samples ::
  "rat array2 \<Rightarrow> rat array2 \<Rightarrow> int list \<Rightarrow> npfloat list \<Rightarrow> npfloat list \<Rightarrow> int list
    \<Rightarrow> sample_dict \<times> sample_dict \<Rightarrow> py_error + sample_dict \<times> sample_dict" where
  "nearest_samples X_subset proj regions X_proto proj_proto [] (euc, rfk) = Inr (euc, rfk)"
| "nearest_samples X_subset proj regions X_proto proj_proto (r # rest) (euc, rfk) =
     (let sel = np_where_eq regions r in
      bind (np_take X_subset (map int sel)) (\<lambda>X_sel.
      bind (np_argmin (sq_dists X_sel X_proto)) (\<lambda>i_euc.
      bind (np_take proj (map int sel)) (\<lambda>proj_sel.
      bind (np_argmin (sq_dists proj_sel proj_proto)) (\<lambda>i_rfk.
      nearest_samples X_subset proj regions X_proto proj_proto rest
        (dict_set euc r (sel ! i_euc), dict_set rfk r (sel ! i_rfk)))))))"

declare nearest_samples.simps [simp del]

text \<open>The body of the outer loop: the record of one cluster.\<close>

definition cluster_cf ::
  "rat array2 \<Rightarrow> rat array2 \<Rightarrow> int list \<Rightarrow> int list \<Rightarrow> int \<Rightarrow> py_error + cf_record" where
  "cluster_cf X_subset proj regions cluster cluster_id =
     (let bmask = map (\<lambda>c. c = cluster_id) cluster in
      bind (np_mask1 regions bmask) (\<lambda>member_regions.
      bind (np_take eye3 (map (\<lambda>r. r + 1) member_regions)) (\<lambda>one_hot.
      let dist = mean_axis0 one_hot in
      bind (np_argmax dist) (\<lambda>k.
      let verdict = [-1, 0, 1] ! k in
      bind (np_mask2 proj bmask) (\<lambda>proj_members.
      let proj_proto = mean_axis0 proj_members in
      bind (np_mask2 X_subset bmask) (\<lambda>X_members.
      let X_proto = mean_axis0 X_members in
      bind (nearest_samples X_subset proj regions X_proto proj_proto [-1, 0, 1] ([], []))
        (\<lambda>(euc, rfk).
      Inr \<lparr>region_dist = dist, region = verdict, sample_euc = euc, sample_rfk = rfk,
           proto_rfk = proj_proto, proto_euc = X_proto\<rparr>)))))))"

fun explain_loop ::
  "rat array2 \<Rightarrow> rat array2 \<Rightarrow> int list \<Rightarrow> int list \<Rightarrow> int list \<Rightarrow> cf_record list
    \<Rightarrow> py_error + cf_record list" where
  "explain_loop X_subset proj regions cluster [] counterfactuals = Inr counterfactuals"
| "explain_loop X_subset proj regions cluster (cluster_id # rest) counterfactuals =
     bind (cluster_cf X_subset proj regions cluster cluster_id) (\<lambda>cf.
     explain_loop X_subset proj regions cluster rest (counterfactuals @ [cf]))"

declare explain_loop.simps [simp del]

text \<open>
  The interface \<open>explain\<close> of the specification. The loop runs over the cluster
  identifiers that occur in \<open>cluster\<close>; the number of clusters asked of the clustering
  routine plays no part in it.
\<close>

definition explain ::
  "rat array2 \<Rightarrow> rat array2 \<Rightarrow> int list \<Rightarrow> int list \<Rightarrow> py_error + cf_record list" where
  "explain X_subset proj regions cluster =
     explain_loop X_subset proj regions cluster (np_unique cluster) []"





section \<open>Notions used in the statements\<close>

text \<open>A list of rows that forms an \<open>n \<times> n\<close> matrix.\<close>

definition square_of :: "nat \<Rightarrow> 'a list list \<Rightarrow> bool" where
  "square_of n m \<longleftrightarrow> length m = n \<and> list_all (\<lambda>r. length r = n) m"

text \<open>
  The notions that the specification uses: the centroid of a list of vectors of
  dimension \<open>d\<close>, the squared Euclidean distance, and the first position of a minimum.
\<close>

definition centroid :: "rat list list \<Rightarrow> nat \<Rightarrow> rat list" where
  "centroid vs d = map (\<lambda>j. sum_list (map (\<lambda>v. v ! j) vs) / of_nat (length vs)) [0..<d]"

definition sq_euclid :: "rat list \<Rightarrow> rat list \<Rightarrow> rat" where
  "sq_euclid x p = sum_list (map2 (\<lambda>a b. (a - b)\<^sup>2) x p)"

text \<open>Position \<open>i\<close> holds a minimum of \<open>qs\<close>, and no earlier position does.\<close>

definition first_min :: "rat list \<Rightarrow> nat \<Rightarrow> bool" where
  "first_min qs i \<longleftrightarrow>
     i < length qs \<and> (\<forall>j < length qs. qs ! i \<le> qs ! j) \<and> (\<forall>j < i. qs ! i < qs ! j)"

text \<open>
  The inputs that the interface admits: rectangular arrays with one row per sample, and
  region values among \<open>-1\<close>, \<open>0\<close> and \<open>1\<close>.
\<close>

definition valid_input :: "rat array2 \<Rightarrow> rat array2 \<Rightarrow> int list \<Rightarrow> int list \<Rightarrow> bool" where
  "valid_input X_subset proj regions cluster \<longleftrightarrow>
     wf_array2 X_subset \<and> wf_array2 proj \<and>
     shape0 X_subset = length cluster \<and> shape0 proj = length cluster \<and>
     length regions = length cluster \<and> set regions \<subseteq> {- 1, 0, 1}"

text \<open>
  Sample \<open>s\<close> carries region \<open>r\<close> and, among all samples of region \<open>r\<close>, its vector is
  closest to \<open>p\<close>; of several closest ones it is the first.
\<close>

definition nearest_in :: "rat list list \<Rightarrow> rat list \<Rightarrow> int list \<Rightarrow> int \<Rightarrow> nat \<Rightarrow> bool" where
  "nearest_in vs p regions r s \<longleftrightarrow>
     s < length regions \<and> regions ! s = r \<and>
     (\<forall>j < length regions. regions ! j = r \<longrightarrow> sq_euclid (vs ! s) p \<le> sq_euclid (vs ! j) p) \<and>
     (\<forall>j < s. regions ! j = r \<longrightarrow> sq_euclid (vs ! s) p < sq_euclid (vs ! j) p)"

text \<open>The share of the value \<open>v\<close> among the regions \<open>rs\<close> of a cluster's members.\<close>

definition bin_average :: "int list \<Rightarrow> int \<Rightarrow> rat" where
  "bin_average rs v = of_nat (count_list rs v) / of_nat (length rs)"

text \<open>
  For one cluster: the regions of its members, the centroid of its members' rows of an
  array, and the first bin of maximal share, the bins ordered \<open>-1\<close>, \<open>0\<close>, \<open>1\<close>.
\<close>

definition member_regions :: "int list \<Rightarrow> int list \<Rightarrow> int \<Rightarrow> int list" where
  "member_regions regions cluster cluster_id = map ((!) regions) (np_where_eq cluster cluster_id)"

definition cluster_centroid :: "rat array2 \<Rightarrow> int list \<Rightarrow> int \<Rightarrow> rat list" where
  "cluster_centroid a cluster cluster_id =
     centroid (map ((!) (rows a)) (np_where_eq cluster cluster_id)) (shape1 a)"

definition first_max_bin :: "int list \<Rightarrow> nat" where
  "first_max_bin rs =
     (if bin_average rs (- 1) < bin_average rs 0
      then (if bin_average rs 0 < bin_average rs 1 then 2 else 1)
      else (if bin_average rs (- 1) < bin_average rs 1 then 2 else 0))"

text \<open>What a record that the loop body returns holds.\<close>

definition record_of ::
  "rat array2 \<Rightarrow> rat array2 \<Rightarrow> int list \<Rightarrow> int list \<Rightarrow> int \<Rightarrow> cf_record \<Rightarrow> bool" where
  "record_of X_subset proj regions cluster cluster_id cf \<longleftrightarrow>
     region_dist cf =
        [Fin (bin_average (member_regions regions cluster cluster_id) (- 1)),
         Fin (bin_average (member_regions regions cluster cluster_id) 0),
         Fin (bin_average (member_regions regions cluster cluster_id) 1)] \<and>
     region cf = [- 1, 0, 1] ! first_max_bin (member_regions regions cluster cluster_id) \<and>
     proto_rfk cf = map Fin (cluster_centroid proj cluster cluster_id) \<and>
     proto_euc cf = map Fin (cluster_centroid X_subset cluster cluster_id) \<and>
     (\<exists>a b c. sample_euc cf = [(- 1, a), (0, b), (1, c)] \<and>
        nearest_in (rows X_subset) (cluster_centroid X_subset cluster cluster_id) regions (- 1) a \<and>
        nearest_in (rows X_subset) (cluster_centroid X_subset cluster cluster_id) regions 0 b \<and>
        nearest_in (rows X_subset) (cluster_centroid X_subset cluster cluster_id) regions 1 c) \<and>
     (\<exists>a b c. sample_rfk cf = [(- 1, a), (0, b), (1, c)] \<and>
        nearest_in (rows proj) (cluster_centroid proj cluster cluster_id) regions (- 1) a \<and>
        nearest_in (rows proj) (cluster_centroid proj cluster cluster_id) regions 0 b \<and>
        nearest_in (rows proj) (cluster_centroid proj cluster cluster_id) regions 1 c)"


section \<open>Worked examples\<close>

text \<open>The concrete scenario of the specification: four samples, two trees.\<close>

definition ex_leaf :: "int array2" where
  "ex_leaf = np_array2 [[1,5],[1,5],[2,5],[2,6]]"

definition ex_kernel :: "npfloat array2" where
  "ex_kernel = np_array2 [[Fin 1, Fin 1, Fin (1/2), Fin 0], [Fin 1, Fin 1, Fin (1/2), Fin 0],
         [Fin (1/2), Fin (1/2), Fin 1, Fin (1/2)], [Fin 0, Fin 0, Fin (1/2), Fin 1]]"

text \<open>A forest without trees, and a subset without samples.\<close>

definition no_trees :: "int array2" where
  "no_trees = \<lparr>shape0 = 2, shape1 = 0, rows = [[], []]\<rparr>"

definition no_samples :: "int array2" where
  "no_samples = \<lparr>shape0 = 0, shape1 = 2, rows = []\<rparr>"

text \<open>
  Ten samples with two raw features and a one-dimensional embedding. The clustering
  was asked for six clusters and left the identifiers 2 and 4 without members.
\<close>

definition ex_X :: "rat array2" where
  "ex_X = np_array2 [[0, 0], [2, 0], [1, 3], [8, 8], [10, 8], [9, 5], [4, 4], [6, 4],
                     [20, 20], [21, 20]]"

definition ex_proj :: "rat array2" where
  "ex_proj = np_array2 [[0], [1], [2], [10], [11], [3], [5], [7], [20], [21]]"

definition ex_regions :: "int list" where
  "ex_regions = [1, 1, 0, - 1, - 1, 1, 1, - 1, 0, 0]"

definition ex_cluster :: "int list" where
  "ex_cluster = [0, 0, 0, 3, 3, 3, 1, 1, 5, 5]"

text \<open>The four records that \<open>explain\<close> returns for them, in the order of the identifiers 0, 1, 3, 5.\<close>

definition ex_counterfactuals :: "cf_record list" where
  "ex_counterfactuals =
     [\<lparr>region_dist = [Fin 0, Fin (1 / 3), Fin (2 / 3)], region = 1,
       sample_euc = [(- 1, 7), (0, 2), (1, 0)], sample_rfk = [(- 1, 7), (0, 2), (1, 1)],
       proto_rfk = [Fin 1], proto_euc = [Fin 1, Fin 1]\<rparr>,
      \<lparr>region_dist = [Fin (1 / 2), Fin 0, Fin (1 / 2)], region = - 1,
       sample_euc = [(- 1, 7), (0, 2), (1, 6)], sample_rfk = [(- 1, 7), (0, 2), (1, 6)],
       proto_rfk = [Fin 6], proto_euc = [Fin 5, Fin 4]\<rparr>,
      \<lparr>region_dist = [Fin (2 / 3), Fin 0, Fin (1 / 3)], region = - 1,
       sample_euc = [(- 1, 3), (0, 2), (1, 5)], sample_rfk = [(- 1, 7), (0, 2), (1, 6)],
       proto_rfk = [Fin 8], proto_euc = [Fin 9, Fin 7]\<rparr>,
      \<lparr>region_dist = [Fin 0, Fin 1, Fin 0], region = 0,
       sample_euc = [(- 1, 4), (0, 8), (1, 5)], sample_rfk = [(- 1, 4), (0, 8), (1, 6)],
       proto_rfk = [Fin (41 / 2)], proto_euc = [Fin (41 / 2), Fin 20]\<rparr>]"

text \<open>Region data for the ten samples in which no sample has region \<open>-1\<close>.\<close>

definition ex_no_after :: "int list" where
  "ex_no_after = [1, 1, 0, 0, 0, 1, 1, 0, 0, 0]"

section \<open>Properties of the kernel matrix\<close>

lemma square_of_zeros: "square_of n (np_zeros n n)"
  by (simp add: square_of_def np_zeros_def list_all_iff)

lemma square_of_iadd:
  assumes "square_of n m" and "length v = n"
  shows "square_of n (iadd_bool m (outer_eq v))"
  using assms
  by (auto simp: square_of_def iadd_bool_def outer_eq_def list_all_iff set_zip)

lemma iadd_entry:
  assumes "square_of n m" and "length v = n" and "i < n" and "j < n"
  shows "iadd_bool m (outer_eq v) ! i ! j = m ! i ! j + (if v ! i = v ! j then 1 else 0)"
proof -
  have "length (m ! i) = n"
    using assms(1,3) by (simp add: square_of_def list_all_length)
  with assms show ?thesis
    by (simp add: square_of_def iadd_bool_def outer_eq_def)
qed

lemma accumulate_square:
  "square_of n m \<Longrightarrow> list_all (\<lambda>v. length v = n) cs \<Longrightarrow> square_of n (accumulate cs m)"
  by (induction cs arbitrary: m) (simp_all add: square_of_iadd)

lemma accumulate_entry:
  assumes "square_of n m" and "list_all (\<lambda>v. length v = n) cs" and "i < n" and "j < n"
  shows "accumulate cs m ! i ! j = m ! i ! j + of_nat (length (filter (\<lambda>v. v ! i = v ! j) cs))"
  using assms
proof (induction cs arbitrary: m)
  case Nil
  then show ?case by simp
next
  case (Cons v cs)
  have sq: "square_of n (iadd_bool m (outer_eq v))"
    using Cons.prems by (simp add: square_of_iadd)
  have "accumulate (v # cs) m ! i ! j
      = iadd_bool m (outer_eq v) ! i ! j + of_nat (length (filter (\<lambda>v. v ! i = v ! j) cs))"
    using Cons.IH [OF sq] Cons.prems by simp
  also have "iadd_bool m (outer_eq v) ! i ! j = m ! i ! j + (if v ! i = v ! j then 1 else 0)"
    using Cons.prems by (intro iadd_entry [where n = n]) simp_all
  finally show ?case by simp
qed

lemma columns_lengths:
  "wf_array2 a \<Longrightarrow> list_all (\<lambda>v. length v = shape0 a) (columns a)"
  by (simp add: wf_array2_def columns_def list_all_iff)

lemma columns_count:
  assumes "wf_array2 a" and "i < shape0 a" and "j < shape0 a"
  shows "length (filter (\<lambda>v. v ! i = v ! j) (columns a))
       = card {t. t < shape1 a \<and> at2 a i t = at2 a j t}"
proof -
  have "filter (\<lambda>v. v ! i = v ! j) (columns a)
      = map (\<lambda>t. map (\<lambda>r. r ! t) (rows a)) (filter (\<lambda>t. at2 a i t = at2 a j t) [0..<shape1 a])"
    using assms by (simp add: columns_def filter_map comp_def at2_def wf_array2_def)
  then have "length (filter (\<lambda>v. v ! i = v ! j) (columns a))
      = length (filter (\<lambda>t. at2 a i t = at2 a j t) [0..<shape1 a])"
    by simp
  also have "\<dots> = card ({t. at2 a i t = at2 a j t} \<inter> set [0..<shape1 a])"
    by (simp add: distinct_length_filter)
  also have "{t. at2 a i t = at2 a j t} \<inter> set [0..<shape1 a]
      = {t. t < shape1 a \<and> at2 a i t = at2 a j t}"
    by auto
  finally show ?thesis .
qed

lemma zeros_entry: "i < n \<Longrightarrow> j < n \<Longrightarrow> np_zeros n n ! i ! j = 0"
  by (simp add: np_zeros_def)

lemma rf_kernel_shape:
  "shape0 (rf_kernel_matrix a) = shape0 a \<and> shape1 (rf_kernel_matrix a) = shape0 a"
  by (simp add: rf_kernel_matrix_def Let_def)

lemma rf_kernel_wf:
  assumes "wf_array2 a"
  shows "wf_array2 (rf_kernel_matrix a)"
proof -
  have "square_of (shape0 a) (accumulate (columns a) (np_zeros (shape0 a) (shape0 a)))"
    using assms by (simp add: accumulate_square square_of_zeros columns_lengths)
  then show ?thesis
    by (simp add: rf_kernel_matrix_def Let_def wf_array2_def square_of_def list_all_iff)
qed

lemma rf_kernel_entry:
  assumes "wf_array2 a" and "i < shape0 a" and "j < shape0 a"
  shows "at2 (rf_kernel_matrix a) i j
       = np_divide (of_nat (card {t. t < shape1 a \<and> at2 a i t = at2 a j t})) (shape1 a)"
proof -
  let ?m = "accumulate (columns a) (np_zeros (shape0 a) (shape0 a))"
  have sq: "square_of (shape0 a) ?m"
    using assms by (simp add: accumulate_square square_of_zeros columns_lengths)
  have "?m ! i ! j = of_nat (card {t. t < shape1 a \<and> at2 a i t = at2 a j t})"
    using accumulate_entry [OF square_of_zeros columns_lengths [OF assms(1)] assms(2,3)]
    by (simp add: zeros_entry assms columns_count)
  moreover have "length ?m = shape0 a" and "length (?m ! i) = shape0 a"
    using sq assms by (simp_all add: square_of_def list_all_length)
  ultimately show ?thesis
    using assms by (simp add: rf_kernel_matrix_def Let_def at2_def)
qed

lemma build_kernel_ex_leaf: "build_kernel ex_leaf = Inr ex_kernel"
  by (simp add: ex_leaf_def ex_kernel_def build_kernel_def rf_kernel_matrix_def np_array2_def
      columns_def np_zeros_def outer_eq_def iadd_bool_def np_divide_def numeral_eq_Suc upt_rec)

text \<open>
  Claim C1. For every rectangular \<open>N \<times> T\<close> integer matrix \<open>leaf_indices\<close> with
  \<open>N \<ge> 1\<close> and \<open>T \<ge> 1\<close>, \<open>build_kernel\<close> returns the \<open>N \<times> N\<close> matrix \<open>K\<close> with
  \<open>K[i][j] = (1/T) \<cdot> |{t. leaf_indices[i][t] = leaf_indices[j][t]}|\<close>; for the four
  samples and two trees \<open>[[1,5],[1,5],[2,5],[2,6]]\<close> the result is
  \<open>[[1,1,.5,0],[1,1,.5,0],[.5,.5,1,.5],[0,0,.5,1]]\<close>.
\<close>

theorem build_kernel_entries:
  "(wf_array2 a \<and> 1 \<le> shape0 a \<and> 1 \<le> shape1 a \<longrightarrow>
      (\<exists>K. build_kernel a = Inr K \<and> wf_array2 K \<and> shape0 K = shape0 a \<and> shape1 K = shape0 a \<and>
        (\<forall>i j. i < shape0 a \<and> j < shape0 a \<longrightarrow>
           at2 K i j = Fin (1 / of_nat (shape1 a)
                            * of_nat (card {t. t < shape1 a \<and> at2 a i t = at2 a j t})))))
   \<and> build_kernel (np_array2 [[1,5],[1,5],[2,5],[2,6]])
       = Inr (np_array2 [[Fin 1, Fin 1, Fin (1/2), Fin 0], [Fin 1, Fin 1, Fin (1/2), Fin 0],
                [Fin (1/2), Fin (1/2), Fin 1, Fin (1/2)], [Fin 0, Fin 0, Fin (1/2), Fin 1]])"
proof (intro conjI impI)
  assume a: "wf_array2 a \<and> 1 \<le> shape0 a \<and> 1 \<le> shape1 a"
  show "\<exists>K. build_kernel a = Inr K \<and> wf_array2 K \<and> shape0 K = shape0 a \<and> shape1 K = shape0 a \<and>
        (\<forall>i j. i < shape0 a \<and> j < shape0 a \<longrightarrow>
           at2 K i j = Fin (1 / of_nat (shape1 a)
                            * of_nat (card {t. t < shape1 a \<and> at2 a i t = at2 a j t})))"
  proof (intro exI [of _ "rf_kernel_matrix a"] conjI allI impI)
    fix i j
    assume "i < shape0 a \<and> j < shape0 a"
    with a show "at2 (rf_kernel_matrix a) i j = Fin (1 / of_nat (shape1 a)
                            * of_nat (card {t. t < shape1 a \<and> at2 a i t = at2 a j t}))"
      by (simp add: rf_kernel_entry np_divide_def)
  qed (use a in \<open>simp_all add: build_kernel_def rf_kernel_wf rf_kernel_shape\<close>)
next
  show "build_kernel (np_array2 [[1,5],[1,5],[2,5],[2,6]])
       = Inr (np_array2 [[Fin 1, Fin 1, Fin (1/2), Fin 0], [Fin 1, Fin 1, Fin (1/2), Fin 0],
                [Fin (1/2), Fin (1/2), Fin 1, Fin (1/2)], [Fin 0, Fin 0, Fin (1/2), Fin 1]])"
    using build_kernel_ex_leaf by (simp add: ex_leaf_def ex_kernel_def)
qed

lemma wf_ex_leaf: "wf_array2 ex_leaf \<and> shape0 ex_leaf = 4 \<and> shape1 ex_leaf = 2"
  by (simp add: ex_leaf_def np_array2_def wf_array2_def)

theorem build_kernel_entries_witness:
  "wf_array2 ex_leaf \<and> 1 \<le> shape0 ex_leaf \<and> 1 \<le> shape1 ex_leaf
   \<and> build_kernel ex_leaf = Inr ex_kernel
   \<and> at2 ex_kernel 2 3 = Fin (1 / of_nat (shape1 ex_leaf)
        * of_nat (card {t. t < shape1 ex_leaf \<and> at2 ex_leaf 2 t = at2 ex_leaf 3 t}))
   \<and> at2 ex_kernel 2 3 = Fin (1 / 2)"
proof -
  have h: "wf_array2 ex_leaf \<and> 1 \<le> shape0 ex_leaf \<and> 1 \<le> shape1 ex_leaf"
    by (simp add: wf_ex_leaf)
  from build_kernel_entries [of ex_leaf] h
  obtain K where K: "build_kernel ex_leaf = Inr K"
    and e: "\<forall>i j. i < shape0 ex_leaf \<and> j < shape0 ex_leaf \<longrightarrow>
           at2 K i j = Fin (1 / of_nat (shape1 ex_leaf)
                            * of_nat (card {t. t < shape1 ex_leaf \<and> at2 ex_leaf i t = at2 ex_leaf j t}))"
    by blast
  from K have "K = ex_kernel" by (simp add: build_kernel_ex_leaf)
  moreover have "(2::nat) < shape0 ex_leaf \<and> (3::nat) < shape0 ex_leaf" by (simp add: wf_ex_leaf)
  moreover have "at2 ex_kernel 2 3 = Fin (1 / 2)"
    by (simp add: ex_kernel_def np_array2_def at2_def numeral_eq_Suc)
  ultimately show ?thesis using h e build_kernel_ex_leaf by blast
qed

lemma coleaf_card_le: "card {t. t < T \<and> P t} \<le> T"
proof -
  have "card {t. t < T \<and> P t} \<le> card {..<T}"
    by (intro card_mono) auto
  then show ?thesis by simp
qed

text \<open>
  Claim C4. For every rectangular \<open>N \<times> T\<close> integer matrix with \<open>N \<ge> 1\<close> and
  \<open>T \<ge> 1\<close>, the matrix \<open>K\<close> that \<open>build_kernel\<close> returns is symmetric, has every
  diagonal entry exactly 1, and has every entry in the closed interval from 0 to 1.
\<close>

theorem build_kernel_symmetric_unit:
  "wf_array2 a \<and> 1 \<le> shape0 a \<and> 1 \<le> shape1 a \<longrightarrow>
     (\<exists>K. build_kernel a = Inr K \<and>
        (\<forall>i j. i < shape0 a \<and> j < shape0 a \<longrightarrow>
           at2 K i j = at2 K j i \<and> at2 K i i = Fin 1 \<and>
           (\<exists>q. at2 K i j = Fin q \<and> 0 \<le> q \<and> q \<le> 1)))"
proof (intro impI exI [of _ "rf_kernel_matrix a"] conjI allI)
  show "build_kernel a = Inr (rf_kernel_matrix a)"
    by (simp add: build_kernel_def)
next
  fix i j
  assume a: "wf_array2 a \<and> 1 \<le> shape0 a \<and> 1 \<le> shape1 a"
    and ij: "i < shape0 a \<and> j < shape0 a"
  let ?c = "\<lambda>i j. card {t. t < shape1 a \<and> at2 a i t = at2 a j t}"
  have sym: "?c i j = ?c j i"
    by (rule arg_cong [where f = card]) auto
  show "at2 (rf_kernel_matrix a) i j = at2 (rf_kernel_matrix a) j i"
    using a ij sym by (simp add: rf_kernel_entry)
  show "at2 (rf_kernel_matrix a) i i = Fin 1"
    using a ij by (simp add: rf_kernel_entry np_divide_def)
  have "rat_of_nat (?c i j) \<le> rat_of_nat (shape1 a)"
    using coleaf_card_le [of "shape1 a"] by (simp only: of_nat_le_iff)
  then have "0 \<le> rat_of_nat (?c i j) / rat_of_nat (shape1 a)
      \<and> rat_of_nat (?c i j) / rat_of_nat (shape1 a) \<le> 1"
    using a by (simp add: divide_le_eq_1)
  then show "\<exists>q. at2 (rf_kernel_matrix a) i j = Fin q \<and> 0 \<le> q \<and> q \<le> 1"
    using a ij by (simp add: rf_kernel_entry np_divide_def)
qed

theorem build_kernel_symmetric_unit_witness:
  "wf_array2 ex_leaf \<and> 1 \<le> shape0 ex_leaf \<and> 1 \<le> shape1 ex_leaf
   \<and> build_kernel ex_leaf = Inr ex_kernel
   \<and> at2 ex_kernel 2 3 = at2 ex_kernel 3 2 \<and> at2 ex_kernel 2 2 = Fin 1
   \<and> (\<exists>q. at2 ex_kernel 2 3 = Fin q \<and> 0 \<le> q \<and> q \<le> 1)"
proof -
  have h: "wf_array2 ex_leaf \<and> 1 \<le> shape0 ex_leaf \<and> 1 \<le> shape1 ex_leaf"
    by (simp add: wf_ex_leaf)
  from build_kernel_symmetric_unit [of ex_leaf] h
  obtain K where K: "build_kernel ex_leaf = Inr K"
    and e: "\<forall>i j. i < shape0 ex_leaf \<and> j < shape0 ex_leaf \<longrightarrow>
           at2 K i j = at2 K j i \<and> at2 K i i = Fin 1 \<and>
           (\<exists>q. at2 K i j = Fin q \<and> 0 \<le> q \<and> q \<le> 1)"
    by blast
  from K have "K = ex_kernel" by (simp add: build_kernel_ex_leaf)
  moreover have "(2::nat) < shape0 ex_leaf \<and> (3::nat) < shape0 ex_leaf" by (simp add: wf_ex_leaf)
  ultimately show ?thesis using h e build_kernel_ex_leaf by blast
qed

text \<open>
  Claim C7, as amended. \<open>build_kernel\<close> validates nothing and never fails. Its argument
  is a NumPy array, rectangular by construction, and for every such array, also with
  \<open>N = 0\<close> or \<open>T = 0\<close>, it returns a matrix of shape \<open>N \<times> N\<close>: the empty matrix when
  \<open>N = 0\<close>, and a matrix of \<^verbatim>\<open>nan\<close> when \<open>T = 0\<close>.
\<close>

theorem build_kernel_total:
  "\<exists>K. build_kernel a = Inr K \<and> shape0 K = shape0 a \<and> shape1 K = shape0 a \<and>
     (wf_array2 a \<and> shape1 a = 0 \<longrightarrow>
        (\<forall>i j. i < shape0 a \<and> j < shape0 a \<longrightarrow> at2 K i j = NaN))"
proof (intro exI [of _ "rf_kernel_matrix a"] conjI impI allI)
  fix i j
  assume "wf_array2 a \<and> shape1 a = 0" and "i < shape0 a \<and> j < shape0 a"
  then show "at2 (rf_kernel_matrix a) i j = NaN"
    by (simp add: rf_kernel_entry np_divide_def)
qed (simp_all add: build_kernel_def rf_kernel_shape)

lemma build_kernel_no_trees:
  "build_kernel no_trees = Inr \<lparr>shape0 = 2, shape1 = 2, rows = [[NaN, NaN], [NaN, NaN]]\<rparr>"
  by (simp add: no_trees_def build_kernel_def rf_kernel_matrix_def columns_def np_zeros_def
      np_divide_def numeral_eq_Suc)

lemma build_kernel_no_samples:
  "build_kernel no_samples = Inr \<lparr>shape0 = 0, shape1 = 0, rows = []\<rparr>"
  by (simp add: no_samples_def build_kernel_def rf_kernel_matrix_def columns_def np_zeros_def
      iadd_bool_def numeral_eq_Suc upt_rec)

theorem build_kernel_total_witness:
  "wf_array2 no_trees \<and> shape1 no_trees = 0 \<and> (0::nat) < shape0 no_trees \<and> 1 < shape0 no_trees
   \<and> (\<exists>K. build_kernel no_trees = Inr K \<and> shape0 K = 2 \<and> shape1 K = 2 \<and> at2 K 0 1 = NaN)"
proof -
  have h: "wf_array2 no_trees \<and> shape1 no_trees = 0"
    by (simp add: no_trees_def wf_array2_def)
  have s: "shape0 no_trees = 2"
    by (simp add: no_trees_def)
  from build_kernel_total [of no_trees] obtain K where
    K: "build_kernel no_trees = Inr K \<and> shape0 K = shape0 no_trees \<and> shape1 K = shape0 no_trees"
    and e: "wf_array2 no_trees \<and> shape1 no_trees = 0 \<longrightarrow>
        (\<forall>i j. i < shape0 no_trees \<and> j < shape0 no_trees \<longrightarrow> at2 K i j = NaN)"
    by blast
  from e h s have "at2 K 0 1 = NaN" by simp
  with K h s show ?thesis by auto
qed

theorem build_kernel_empty_input_counterexample:
  "build_kernel no_trees = Inr \<lparr>shape0 = 2, shape1 = 2, rows = [[NaN, NaN], [NaN, NaN]]\<rparr>
   \<and> \<not> (\<exists>e. build_kernel no_trees = Inl e)
   \<and> build_kernel no_samples = Inr \<lparr>shape0 = 0, shape1 = 0, rows = []\<rparr>
   \<and> \<not> (\<exists>e. build_kernel no_samples = Inl e)"
  by (simp add: build_kernel_no_trees build_kernel_no_samples)

section \<open>Properties of the drift regions\<close>



section \<open>Properties of the explanation step\<close>

lemma np_sum_Fin: "np_sum (map (\<lambda>z. Fin (f z)) zs) = Fin (sum_list (map f zs))"
  by (induction zs) simp_all

lemma sq_dists_Fin:
  "sq_dists a (map Fin P) = map (\<lambda>r. Fin (sq_euclid r P)) (rows a)"
proof -
  have "map2 (\<lambda>x p. np_square (np_subtract (Fin x) p)) r (map Fin P)
      = map (\<lambda>z. Fin ((fst z - snd z)\<^sup>2)) (zip r P)" for r
    by (simp add: zip_map2 np_subtract_def power2_eq_square split_def)
  then show ?thesis
    by (simp add: sq_dists_def sq_euclid_def np_sum_Fin split_def)
qed

lemma mean_axis0_Fin:
  assumes "length (rows a) = shape0 a" and "0 < shape0 a"
  shows "mean_axis0 a = map Fin (centroid (rows a) (shape1 a))"
  using assms by (simp add: mean_axis0_def centroid_def np_divide_def)

lemma argmin_scan_Fin:
  assumes "argmin_scan (map Fin qs) i (Fin m) k = r" and "k < i"
  shows "(r = k \<and> (\<forall>q \<in> set qs. m \<le> q))
       \<or> (i \<le> r \<and> r - i < length qs \<and> qs ! (r - i) < m
           \<and> (\<forall>j < length qs. qs ! (r - i) \<le> qs ! j) \<and> (\<forall>j < r - i. qs ! (r - i) < qs ! j))"
  using assms
proof (induction qs arbitrary: i m k r)
  case Nil
  then show ?case by simp
next
  case (Cons q qs)
  show ?case
  proof (cases "q < m")
    case True
    with Cons.prems have step: "argmin_scan (map Fin qs) (Suc i) (Fin q) i = r"
      by simp
    from Cons.IH [OF step] have
      "(r = i \<and> (\<forall>x \<in> set qs. q \<le> x))
       \<or> (Suc i \<le> r \<and> r - Suc i < length qs \<and> qs ! (r - Suc i) < q
           \<and> (\<forall>j < length qs. qs ! (r - Suc i) \<le> qs ! j)
           \<and> (\<forall>j < r - Suc i. qs ! (r - Suc i) < qs ! j))"
      by simp
    then show ?thesis
    proof
      assume a: "r = i \<and> (\<forall>x \<in> set qs. q \<le> x)"
      then have "\<forall>j < length (q # qs). (q # qs) ! (r - i) \<le> (q # qs) ! j"
        by (auto simp: nth_Cons split: nat.splits)
      with a True show ?thesis by simp
    next
      assume b: "Suc i \<le> r \<and> r - Suc i < length qs \<and> qs ! (r - Suc i) < q
           \<and> (\<forall>j < length qs. qs ! (r - Suc i) \<le> qs ! j)
           \<and> (\<forall>j < r - Suc i. qs ! (r - Suc i) < qs ! j)"
      then obtain d where d: "r - i = Suc d" "d = r - Suc i"
        by (metis Suc_diff_le diff_Suc_Suc)
      have "\<forall>j < length (q # qs). (q # qs) ! (r - i) \<le> (q # qs) ! j"
        using b d by (auto simp: nth_Cons split: nat.splits)
      moreover have "\<forall>j < r - i. (q # qs) ! (r - i) < (q # qs) ! j"
        using b d by (auto simp: nth_Cons split: nat.splits)
      ultimately show ?thesis using b d True by auto
    qed
  next
    case False
    with Cons.prems have step: "argmin_scan (map Fin qs) (Suc i) (Fin m) k = r"
      by simp
    have "k < Suc i" using Cons.prems by simp
    from Cons.IH [OF step this] have
      "(r = k \<and> (\<forall>x \<in> set qs. m \<le> x))
       \<or> (Suc i \<le> r \<and> r - Suc i < length qs \<and> qs ! (r - Suc i) < m
           \<and> (\<forall>j < length qs. qs ! (r - Suc i) \<le> qs ! j)
           \<and> (\<forall>j < r - Suc i. qs ! (r - Suc i) < qs ! j))" .
    then show ?thesis
    proof
      assume "r = k \<and> (\<forall>x \<in> set qs. m \<le> x)"
      with False show ?thesis by auto
    next
      assume b: "Suc i \<le> r \<and> r - Suc i < length qs \<and> qs ! (r - Suc i) < m
           \<and> (\<forall>j < length qs. qs ! (r - Suc i) \<le> qs ! j)
           \<and> (\<forall>j < r - Suc i. qs ! (r - Suc i) < qs ! j)"
      then obtain d where d: "r - i = Suc d" "d = r - Suc i"
        by (metis Suc_diff_le diff_Suc_Suc)
      have "\<forall>j < length (q # qs). (q # qs) ! (r - i) \<le> (q # qs) ! j"
        using b d False by (auto simp: nth_Cons split: nat.splits)
      moreover have "\<forall>j < r - i. (q # qs) ! (r - i) < (q # qs) ! j"
        using b d False by (auto simp: nth_Cons split: nat.splits)
      ultimately show ?thesis using b d by auto
    qed
  qed
qed

lemma np_argmin_Fin:
  assumes "qs \<noteq> []"
  shows "\<exists>i. np_argmin (map Fin qs) = Inr i \<and> first_min qs i"
proof -
  from assms obtain q rest where qs: "qs = q # rest" by (cases qs) auto
  define r where "r = argmin_scan (map Fin rest) 1 (Fin q) 0"
  have res: "np_argmin (map Fin qs) = Inr r"
    by (simp add: np_argmin_def qs r_def)
  from argmin_scan_Fin [of rest 1 q 0 r] r_def have
    "(r = 0 \<and> (\<forall>x \<in> set rest. q \<le> x))
       \<or> (1 \<le> r \<and> r - 1 < length rest \<and> rest ! (r - 1) < q
           \<and> (\<forall>j < length rest. rest ! (r - 1) \<le> rest ! j) \<and> (\<forall>j < r - 1. rest ! (r - 1) < rest ! j))"
    by simp
  then have "first_min qs r"
  proof
    assume "r = 0 \<and> (\<forall>x \<in> set rest. q \<le> x)"
    then show ?thesis
      by (auto simp: first_min_def qs nth_Cons split: nat.splits)
  next
    assume b: "1 \<le> r \<and> r - 1 < length rest \<and> rest ! (r - 1) < q
           \<and> (\<forall>j < length rest. rest ! (r - 1) \<le> rest ! j) \<and> (\<forall>j < r - 1. rest ! (r - 1) < rest ! j)"
    then obtain d where d: "r = Suc d" by (cases r) auto
    with b show ?thesis
      by (auto simp: first_min_def qs nth_Cons split: nat.splits)
  qed
  with res show ?thesis by blast
qed

lemma zip_mask:
  assumes "length xs = length cs"
  shows "map fst (filter snd (zip xs (map P cs)))
       = map ((!) xs) (filter (\<lambda>i. P (cs ! i)) [0..<length cs])"
proof -
  have "zip xs (map P cs) = map (\<lambda>i. (xs ! i, P (cs ! i))) [0..<length cs]"
    using assms by (intro nth_equalityI) simp_all
  then show ?thesis
    by (simp add: filter_map comp_def)
qed

lemma np_mask1_members:
  assumes "length xs = length cluster"
  shows "np_mask1 xs (map (\<lambda>c. c = cluster_id) cluster)
       = Inr (map ((!) xs) (np_where_eq cluster cluster_id))"
  using assms by (simp add: np_mask1_def np_where_eq_def zip_mask)

lemma np_mask2_members:
  assumes "length (rows a) = shape0 a" and "shape0 a = length cluster"
  shows "np_mask2 a (map (\<lambda>c. c = cluster_id) cluster)
       = Inr \<lparr>shape0 = length (np_where_eq cluster cluster_id), shape1 = shape1 a,
              rows = map ((!) (rows a)) (np_where_eq cluster cluster_id)\<rparr>"
  using assms by (simp add: np_mask2_def np_where_eq_def zip_mask Let_def)

lemma np_take_nat:
  assumes "\<forall>i \<in> set sel. i < shape0 a"
  shows "np_take a (map int sel)
       = Inr \<lparr>shape0 = length sel, shape1 = shape1 a, rows = map ((!) (rows a)) sel\<rparr>"
  using assms by (simp add: np_take_def Let_def list_all_iff)

lemma set_np_where_eq: "set (np_where_eq xs v) = {i. i < length xs \<and> xs ! i = v}"
  by (auto simp: np_where_eq_def)

lemma np_where_eq_empty: "np_where_eq xs v = [] \<longleftrightarrow> v \<notin> set xs"
proof -
  have "np_where_eq xs v = [] \<longleftrightarrow> set (np_where_eq xs v) = {}" by simp
  also have "\<dots> \<longleftrightarrow> v \<notin> set xs"
    by (auto simp: set_np_where_eq in_set_conv_nth)
  finally show ?thesis .
qed

lemma np_where_eq_sorted: "sorted_wrt (<) (np_where_eq xs v)"
  by (simp add: np_where_eq_def sorted_wrt_filter)

lemma one_hot_take:
  assumes "set rs \<subseteq> {- 1, 0, 1}"
  shows "np_take eye3 (map (\<lambda>r. r + 1) rs)
       = Inr \<lparr>shape0 = length rs, shape1 = 3,
              rows = map (\<lambda>r. rows eye3 ! nat (r + 1)) rs\<rparr>"
proof -
  have "list_all (\<lambda>k. - 3 \<le> k \<and> k < 3) (map (\<lambda>r. r + 1) rs)"
    using assms by (auto simp: list_all_iff)
  moreover have "map (\<lambda>k. rows eye3 ! nat (if k < 0 then k + 3 else k)) (map (\<lambda>r. r + 1) rs)
      = map (\<lambda>r. rows eye3 ! nat (r + 1)) rs"
    using assms by auto
  ultimately show ?thesis
    by (simp add: np_take_def Let_def eye3_def)
qed

lemma eye3_row:
  assumes "r = - 1 \<or> r = 0 \<or> r = 1"
  shows "rows eye3 ! nat (r + 1)
       = [if r = - 1 then 1 else 0, if r = 0 then 1 else 0, if r = 1 then 1 else 0]"
  using assms by (elim disjE) (simp_all add: eye3_def)

lemma one_hot_rows:
  assumes "set rs \<subseteq> {- 1, 0, 1}"
  shows "map (\<lambda>r. rows eye3 ! nat (r + 1)) rs
       = map (\<lambda>r. [if r = - 1 then 1 else 0, if r = 0 then 1 else 0, if r = 1 then 1 else 0]) rs"
proof (rule map_cong [OF refl])
  fix r assume "r \<in> set rs"
  with assms have "r = - 1 \<or> r = 0 \<or> r = 1" by auto
  then show "rows eye3 ! nat (r + 1)
       = [if r = - 1 then 1 else 0, if r = 0 then 1 else 0, if r = 1 then 1 else 0]"
    by (rule eye3_row)
qed

lemma count_as_sum: "sum_list (map (\<lambda>r. if r = v then 1 else 0) rs) = rat_of_nat (count_list rs v)"
  by (induction rs) simp_all

lemma region_dist_Fin:
  assumes "set rs \<subseteq> {- 1, 0, 1}" and "rs \<noteq> []"
  shows "mean_axis0 \<lparr>shape0 = length rs, shape1 = 3, rows = map (\<lambda>r. rows eye3 ! nat (r + 1)) rs\<rparr>
       = [Fin (bin_average rs (- 1)), Fin (bin_average rs 0), Fin (bin_average rs 1)]"
proof -
  have u: "[0..<3] = [0, 1, 2]" by code_simp
  show ?thesis
    using assms(2)
    by (simp add: mean_axis0_def one_hot_rows [OF assms(1)] u np_divide_def bin_average_def
        comp_def count_as_sum)
qed

lemma np_argmax3:
  "np_argmax [Fin a, Fin b, Fin c]
     = Inr (if a < b then (if b < c then 2 else 1) else (if a < c then 2 else 0))"
  by (simp add: np_argmax_def not_le)

lemma nearest_pick:
  assumes "sorted_wrt (<) sel"
    and "set sel = {i. i < length regions \<and> regions ! i = r}"
    and "first_min (map (\<lambda>i. sq_euclid (vs ! i) p) sel) e"
  shows "nearest_in vs p regions r (sel ! e)"
proof -
  let ?d = "\<lambda>i. sq_euclid (vs ! i) p"
  from assms(3) have e: "e < length sel"
    by (simp add: first_min_def)
  have le: "\<forall>k < length sel. ?d (sel ! e) \<le> ?d (sel ! k)"
    using assms(3) e by (simp add: first_min_def)
  have lt: "\<forall>k < e. ?d (sel ! e) < ?d (sel ! k)"
    using assms(3) e by (simp add: first_min_def)
  from e have "sel ! e \<in> set sel" by simp
  with assms(2) have in_r: "sel ! e < length regions \<and> regions ! (sel ! e) = r" by simp
  have all: "?d (sel ! e) \<le> ?d j" if "j < length regions" "regions ! j = r" for j
  proof -
    from that assms(2) have "j \<in> set sel" by simp
    then obtain k where "k < length sel" "sel ! k = j" by (auto simp: in_set_conv_nth)
    with le show ?thesis by auto
  qed
  have first: "?d (sel ! e) < ?d j" if "j < sel ! e" "regions ! j = r" for j
  proof -
    from that in_r assms(2) have "j \<in> set sel" by simp
    then obtain k where k: "k < length sel" "sel ! k = j" by (auto simp: in_set_conv_nth)
    have "k < e"
    proof (rule ccontr)
      assume "\<not> k < e"
      then have "e = k \<or> e < k" by auto
      then have "sel ! e \<le> sel ! k"
      proof
        assume "e = k" then show ?thesis by simp
      next
        assume "e < k"
        with assms(1) k(1) have "sel ! e < sel ! k"
          by (simp add: sorted_wrt_iff_nth_less)
        then show ?thesis by simp
      qed
      with that k show False by simp
    qed
    with lt k show ?thesis by auto
  qed
  from in_r all first show ?thesis
    by (simp add: nearest_in_def)
qed

lemma nearest_step:
  assumes "length (rows a) = shape0 a" and "shape0 a = length regions" and "r \<in> set regions"
  shows "\<exists>X_sel e. np_take a (map int (np_where_eq regions r)) = Inr X_sel
          \<and> np_argmin (sq_dists X_sel (map Fin p)) = Inr e
          \<and> nearest_in (rows a) p regions r (np_where_eq regions r ! e)"
proof -
  let ?sel = "np_where_eq regions r"
  let ?X_sel = "\<lparr>shape0 = length ?sel, shape1 = shape1 a, rows = map ((!) (rows a)) ?sel\<rparr>"
  have take: "np_take a (map int ?sel) = Inr ?X_sel"
    using assms(2) by (intro np_take_nat) (simp add: set_np_where_eq)
  have ne: "map (\<lambda>i. sq_euclid (rows a ! i) p) ?sel \<noteq> []"
    using assms(3) by (simp add: np_where_eq_empty)
  have "sq_dists ?X_sel (map Fin p) = map Fin (map (\<lambda>i. sq_euclid (rows a ! i) p) ?sel)"
    by (simp add: sq_dists_Fin comp_def)
  with np_argmin_Fin [OF ne] obtain e where
    e: "np_argmin (sq_dists ?X_sel (map Fin p)) = Inr e"
      "first_min (map (\<lambda>i. sq_euclid (rows a ! i) p) ?sel) e"
    by auto
  have "nearest_in (rows a) p regions r (?sel ! e)"
    using np_where_eq_sorted set_np_where_eq e(2) by (rule nearest_pick)
  with take e(1) show ?thesis by blast
qed

lemma nearest_samples_present:
  assumes "length (rows X_subset) = shape0 X_subset" and "shape0 X_subset = length regions"
    and "length (rows proj) = shape0 proj" and "shape0 proj = length regions"
    and "r \<in> set regions"
  shows "\<exists>se sr.
      nearest_samples X_subset proj regions (map Fin P) (map Fin Q) (r # rest) (euc, rfk)
        = nearest_samples X_subset proj regions (map Fin P) (map Fin Q) rest
            (dict_set euc r se, dict_set rfk r sr)
      \<and> nearest_in (rows X_subset) P regions r se
      \<and> nearest_in (rows proj) Q regions r sr"
proof -
  from nearest_step [OF assms(1,2,5), of P] obtain X_sel e where
    a: "np_take X_subset (map int (np_where_eq regions r)) = Inr X_sel"
       "np_argmin (sq_dists X_sel (map Fin P)) = Inr e"
       "nearest_in (rows X_subset) P regions r (np_where_eq regions r ! e)"
    by blast
  from nearest_step [OF assms(3,4,5), of Q] obtain proj_sel f where
    b: "np_take proj (map int (np_where_eq regions r)) = Inr proj_sel"
       "np_argmin (sq_dists proj_sel (map Fin Q)) = Inr f"
       "nearest_in (rows proj) Q regions r (np_where_eq regions r ! f)"
    by blast
  have "nearest_samples X_subset proj regions (map Fin P) (map Fin Q) (r # rest) (euc, rfk)
        = nearest_samples X_subset proj regions (map Fin P) (map Fin Q) rest
            (dict_set euc r (np_where_eq regions r ! e), dict_set rfk r (np_where_eq regions r ! f))"
    using a(1,2) b(1,2) by (simp add: nearest_samples.simps bind_def Let_def)
  with a(3) b(3) show ?thesis by blast
qed

lemma nearest_samples_absent:
  assumes "r \<notin> set regions"
  shows "nearest_samples X_subset proj regions X_proto proj_proto (r # rest) (euc, rfk)
       = Inl ValueError"
proof -
  from assms have "np_where_eq regions r = []" by (simp add: np_where_eq_empty)
  then show ?thesis
    by (simp add: nearest_samples.simps bind_def Let_def np_take_def sq_dists_def np_argmin_def)
qed

lemma nearest_samples_missing:
  assumes "length (rows X_subset) = shape0 X_subset" and "shape0 X_subset = length regions"
    and "length (rows proj) = shape0 proj" and "shape0 proj = length regions"
    and "\<exists>r \<in> set rs. r \<notin> set regions"
  shows "nearest_samples X_subset proj regions (map Fin P) (map Fin Q) rs d = Inl ValueError"
  using assms(5)
proof (induction rs arbitrary: d)
  case Nil
  then show ?case by simp
next
  case (Cons r rs)
  obtain euc rfk where d: "d = (euc, rfk)" by (cases d)
  show ?case
  proof (cases "r \<in> set regions")
    case True
    with Cons.prems have rest: "\<exists>r \<in> set rs. r \<notin> set regions" by auto
    from nearest_samples_present [OF assms(1-4) True, of P Q rs euc rfk] obtain se sr where
      "nearest_samples X_subset proj regions (map Fin P) (map Fin Q) (r # rs) (euc, rfk)
        = nearest_samples X_subset proj regions (map Fin P) (map Fin Q) rs
            (dict_set euc r se, dict_set rfk r sr)"
      by blast
    with Cons.IH [OF rest] d show ?thesis by simp
  next
    case False
    then show ?thesis
      unfolding d by (rule nearest_samples_absent)
  qed
qed

lemma nearest_samples_all:
  assumes "length (rows X_subset) = shape0 X_subset" and "shape0 X_subset = length regions"
    and "length (rows proj) = shape0 proj" and "shape0 proj = length regions"
    and "- 1 \<in> set regions" and "0 \<in> set regions" and "1 \<in> set regions"
  shows "\<exists>a b c a' b' c'.
      nearest_samples X_subset proj regions (map Fin P) (map Fin Q) [- 1, 0, 1] ([], [])
        = Inr ([(- 1, a), (0, b), (1, c)], [(- 1, a'), (0, b'), (1, c')])
      \<and> nearest_in (rows X_subset) P regions (- 1) a
      \<and> nearest_in (rows X_subset) P regions 0 b
      \<and> nearest_in (rows X_subset) P regions 1 c
      \<and> nearest_in (rows proj) Q regions (- 1) a'
      \<and> nearest_in (rows proj) Q regions 0 b'
      \<and> nearest_in (rows proj) Q regions 1 c'"
proof -
  from nearest_samples_present [OF assms(1-4) assms(5), of P Q "[0, 1]" "[]" "[]"]
  obtain a a' where
    s1: "nearest_samples X_subset proj regions (map Fin P) (map Fin Q) [- 1, 0, 1] ([], [])
        = nearest_samples X_subset proj regions (map Fin P) (map Fin Q) [0, 1]
            ([(- 1, a)], [(- 1, a')])"
    and n1: "nearest_in (rows X_subset) P regions (- 1) a"
      "nearest_in (rows proj) Q regions (- 1) a'"
    by auto
  from nearest_samples_present [OF assms(1-4) assms(6), of P Q "[1]" "[(- 1, a)]" "[(- 1, a')]"]
  obtain b b' where
    s2: "nearest_samples X_subset proj regions (map Fin P) (map Fin Q) [0, 1]
            ([(- 1, a)], [(- 1, a')])
        = nearest_samples X_subset proj regions (map Fin P) (map Fin Q) [1]
            ([(- 1, a), (0, b)], [(- 1, a'), (0, b')])"
    and n2: "nearest_in (rows X_subset) P regions 0 b"
      "nearest_in (rows proj) Q regions 0 b'"
    by auto
  from nearest_samples_present [OF assms(1-4) assms(7), of P Q "[]"
      "[(- 1, a), (0, b)]" "[(- 1, a'), (0, b')]"]
  obtain c c' where
    s3: "nearest_samples X_subset proj regions (map Fin P) (map Fin Q) [1]
            ([(- 1, a), (0, b)], [(- 1, a'), (0, b')])
        = Inr ([(- 1, a), (0, b), (1, c)], [(- 1, a'), (0, b'), (1, c')])"
    and n3: "nearest_in (rows X_subset) P regions 1 c"
      "nearest_in (rows proj) Q regions 1 c'"
    by (auto simp: nearest_samples.simps)
  from s1 s2 s3 n1 n2 n3 show ?thesis by (intro exI [of _ a] exI [of _ b] exI [of _ c]
      exI [of _ a'] exI [of _ b'] exI [of _ c']) simp
qed

lemma valid_input_rows:
  assumes "valid_input X_subset proj regions cluster"
  shows "length (rows X_subset) = shape0 X_subset" and "shape0 X_subset = length regions"
    and "length (rows proj) = shape0 proj" and "shape0 proj = length regions"
    and "length regions = length cluster" and "set regions \<subseteq> {- 1, 0, 1}"
  using assms by (simp_all add: valid_input_def wf_array2_def)

lemma member_regions_ok:
  assumes "length regions = length cluster" and "set regions \<subseteq> {- 1, 0, 1}"
    and "cluster_id \<in> set cluster"
  shows "set (member_regions regions cluster cluster_id) \<subseteq> {- 1, 0, 1}"
    and "member_regions regions cluster cluster_id \<noteq> []"
proof -
  have "set (member_regions regions cluster cluster_id) \<subseteq> set regions"
    using assms(1) by (auto simp: member_regions_def set_np_where_eq)
  with assms(2) show "set (member_regions regions cluster cluster_id) \<subseteq> {- 1, 0, 1}"
    by blast
  show "member_regions regions cluster cluster_id \<noteq> []"
    using assms(3) by (simp add: member_regions_def np_where_eq_empty)
qed

lemma members_mean:
  assumes "length (rows a) = shape0 a" and "shape0 a = length cluster"
    and "cluster_id \<in> set cluster"
  shows "\<exists>ms. np_mask2 a (map (\<lambda>c. c = cluster_id) cluster) = Inr ms
            \<and> mean_axis0 ms = map Fin (cluster_centroid a cluster cluster_id)"
proof -
  let ?ms = "\<lparr>shape0 = length (np_where_eq cluster cluster_id), shape1 = shape1 a,
              rows = map ((!) (rows a)) (np_where_eq cluster cluster_id)\<rparr>"
  have "np_mask2 a (map (\<lambda>c. c = cluster_id) cluster) = Inr ?ms"
    using assms(1,2) by (rule np_mask2_members)
  moreover have "0 < shape0 ?ms"
    using assms(3) by (simp add: np_where_eq_empty)
  then have "mean_axis0 ?ms = map Fin (cluster_centroid a cluster cluster_id)"
    by (subst mean_axis0_Fin) (simp_all add: cluster_centroid_def)
  ultimately show ?thesis by blast
qed

lemma cluster_cf_unfold:
  assumes "valid_input X_subset proj regions cluster" and "cluster_id \<in> set cluster"
  shows "cluster_cf X_subset proj regions cluster cluster_id =
     bind (nearest_samples X_subset proj regions
            (map Fin (cluster_centroid X_subset cluster cluster_id))
            (map Fin (cluster_centroid proj cluster cluster_id)) [- 1, 0, 1] ([], []))
       (\<lambda>(euc, rfk).
          Inr \<lparr>region_dist =
                 [Fin (bin_average (member_regions regions cluster cluster_id) (- 1)),
                  Fin (bin_average (member_regions regions cluster cluster_id) 0),
                  Fin (bin_average (member_regions regions cluster cluster_id) 1)],
               region = [- 1, 0, 1] ! first_max_bin (member_regions regions cluster cluster_id),
               sample_euc = euc, sample_rfk = rfk,
               proto_rfk = map Fin (cluster_centroid proj cluster cluster_id),
               proto_euc = map Fin (cluster_centroid X_subset cluster cluster_id)\<rparr>)"
proof -
  note v = valid_input_rows [OF assms(1)]
  let ?rs = "member_regions regions cluster cluster_id"
  let ?bmask = "map (\<lambda>c. c = cluster_id) cluster"
  have rs: "set ?rs \<subseteq> {- 1, 0, 1}" "?rs \<noteq> []"
    using member_regions_ok [OF v(5,6) assms(2)] by simp_all
  have m1: "np_mask1 regions ?bmask = Inr ?rs"
    using v(5) by (simp add: np_mask1_members member_regions_def)
  have t: "np_take eye3 (map (\<lambda>r. r + 1) ?rs)
       = Inr \<lparr>shape0 = length ?rs, shape1 = 3, rows = map (\<lambda>r. rows eye3 ! nat (r + 1)) ?rs\<rparr>"
    using rs(1) by (rule one_hot_take)
  have d: "mean_axis0 \<lparr>shape0 = length ?rs, shape1 = 3,
                       rows = map (\<lambda>r. rows eye3 ! nat (r + 1)) ?rs\<rparr>
       = [Fin (bin_average ?rs (- 1)), Fin (bin_average ?rs 0), Fin (bin_average ?rs 1)]"
    using rs by (rule region_dist_Fin)
  have am: "np_argmax [Fin (bin_average ?rs (- 1)), Fin (bin_average ?rs 0), Fin (bin_average ?rs 1)]
       = Inr (first_max_bin ?rs)"
    by (simp only: np_argmax3 first_max_bin_def)
  from members_mean [of proj cluster cluster_id] v assms(2) obtain pm where
    pm: "np_mask2 proj ?bmask = Inr pm"
      "mean_axis0 pm = map Fin (cluster_centroid proj cluster cluster_id)"
    by auto
  from members_mean [of X_subset cluster cluster_id] v assms(2) obtain xm where
    xm: "np_mask2 X_subset ?bmask = Inr xm"
      "mean_axis0 xm = map Fin (cluster_centroid X_subset cluster cluster_id)"
    by auto
  show ?thesis
    unfolding cluster_cf_def Let_def m1 t d am pm xm bind_def sum.case ..
qed

lemma cluster_cf_fail:
  assumes "valid_input X_subset proj regions cluster" and "cluster_id \<in> set cluster"
    and "\<not> {- 1, 0, 1} \<subseteq> set regions"
  shows "cluster_cf X_subset proj regions cluster cluster_id = Inl ValueError"
proof -
  note v = valid_input_rows [OF assms(1)]
  from assms(3) have "\<exists>r \<in> set [- 1, 0, 1]. r \<notin> set regions" by auto
  from nearest_samples_missing [OF v(1-4) this]
  show ?thesis
    by (simp add: cluster_cf_unfold [OF assms(1,2)] bind_def)
qed

lemma cluster_cf_ok:
  assumes "valid_input X_subset proj regions cluster" and "cluster_id \<in> set cluster"
    and "{- 1, 0, 1} \<subseteq> set regions"
  shows "\<exists>a b c a' b' c'.
     cluster_cf X_subset proj regions cluster cluster_id =
       Inr \<lparr>region_dist =
              [Fin (bin_average (member_regions regions cluster cluster_id) (- 1)),
               Fin (bin_average (member_regions regions cluster cluster_id) 0),
               Fin (bin_average (member_regions regions cluster cluster_id) 1)],
            region = [- 1, 0, 1] ! first_max_bin (member_regions regions cluster cluster_id),
            sample_euc = [(- 1, a), (0, b), (1, c)],
            sample_rfk = [(- 1, a'), (0, b'), (1, c')],
            proto_rfk = map Fin (cluster_centroid proj cluster cluster_id),
            proto_euc = map Fin (cluster_centroid X_subset cluster cluster_id)\<rparr>
     \<and> nearest_in (rows X_subset) (cluster_centroid X_subset cluster cluster_id) regions (- 1) a
     \<and> nearest_in (rows X_subset) (cluster_centroid X_subset cluster cluster_id) regions 0 b
     \<and> nearest_in (rows X_subset) (cluster_centroid X_subset cluster cluster_id) regions 1 c
     \<and> nearest_in (rows proj) (cluster_centroid proj cluster cluster_id) regions (- 1) a'
     \<and> nearest_in (rows proj) (cluster_centroid proj cluster cluster_id) regions 0 b'
     \<and> nearest_in (rows proj) (cluster_centroid proj cluster cluster_id) regions 1 c'"
proof -
  note v = valid_input_rows [OF assms(1)]
  from assms(3) have p: "- 1 \<in> set regions" "0 \<in> set regions" "1 \<in> set regions" by auto
  from nearest_samples_all [OF v(1-4) p,
      of "cluster_centroid X_subset cluster cluster_id" "cluster_centroid proj cluster cluster_id"]
  obtain a b c a' b' c' where
    n: "nearest_samples X_subset proj regions
          (map Fin (cluster_centroid X_subset cluster cluster_id))
          (map Fin (cluster_centroid proj cluster cluster_id)) [- 1, 0, 1] ([], [])
        = Inr ([(- 1, a), (0, b), (1, c)], [(- 1, a'), (0, b'), (1, c')])"
    and q: "nearest_in (rows X_subset) (cluster_centroid X_subset cluster cluster_id) regions (- 1) a"
      "nearest_in (rows X_subset) (cluster_centroid X_subset cluster cluster_id) regions 0 b"
      "nearest_in (rows X_subset) (cluster_centroid X_subset cluster cluster_id) regions 1 c"
      "nearest_in (rows proj) (cluster_centroid proj cluster cluster_id) regions (- 1) a'"
      "nearest_in (rows proj) (cluster_centroid proj cluster cluster_id) regions 0 b'"
      "nearest_in (rows proj) (cluster_centroid proj cluster cluster_id) regions 1 c'"
    by blast
  have "cluster_cf X_subset proj regions cluster cluster_id =
       Inr \<lparr>region_dist =
              [Fin (bin_average (member_regions regions cluster cluster_id) (- 1)),
               Fin (bin_average (member_regions regions cluster cluster_id) 0),
               Fin (bin_average (member_regions regions cluster cluster_id) 1)],
            region = [- 1, 0, 1] ! first_max_bin (member_regions regions cluster cluster_id),
            sample_euc = [(- 1, a), (0, b), (1, c)],
            sample_rfk = [(- 1, a'), (0, b'), (1, c')],
            proto_rfk = map Fin (cluster_centroid proj cluster cluster_id),
            proto_euc = map Fin (cluster_centroid X_subset cluster cluster_id)\<rparr>"
    by (simp add: cluster_cf_unfold [OF assms(1,2)] n bind_def)
  with q show ?thesis by blast
qed

lemma cluster_cf_record:
  assumes "valid_input X_subset proj regions cluster" and "cluster_id \<in> set cluster"
    and "cluster_cf X_subset proj regions cluster cluster_id = Inr cf"
  shows "record_of X_subset proj regions cluster cluster_id cf"
    and "{- 1, 0, 1} \<subseteq> set regions"
proof -
  show all: "{- 1, 0, 1} \<subseteq> set regions"
  proof (rule ccontr)
    assume "\<not> {- 1, 0, 1} \<subseteq> set regions"
    from cluster_cf_fail [OF assms(1,2) this] assms(3) show False by simp
  qed
  from cluster_cf_ok [OF assms(1,2) all] assms(3)
  show "record_of X_subset proj regions cluster cluster_id cf"
    unfolding record_of_def by force
qed

lemma explain_loop_Inr:
  "explain_loop X_subset proj regions cluster ids acc = Inr cfs \<longleftrightarrow>
     (\<exists>new. cfs = acc @ new \<and>
        list_all2 (\<lambda>c cf. cluster_cf X_subset proj regions cluster c = Inr cf) ids new)"
proof (induction ids arbitrary: acc)
  case Nil
  then show ?case by (auto simp: explain_loop.simps)
next
  case (Cons c ids)
  show ?case
  proof (cases "cluster_cf X_subset proj regions cluster c")
    case (Inl e)
    then show ?thesis
      by (simp add: explain_loop.simps bind_def list_all2_Cons1)
  next
    case (Inr cf)
    then have "explain_loop X_subset proj regions cluster (c # ids) acc
        = explain_loop X_subset proj regions cluster ids (acc @ [cf])"
      by (simp add: explain_loop.simps bind_def)
    with Cons.IH [of "acc @ [cf]"] Inr show ?thesis
      by (auto simp: list_all2_Cons1)
  qed
qed

lemma explain_loop_first_fails:
  assumes "cluster_cf X_subset proj regions cluster c = Inl e"
  shows "explain_loop X_subset proj regions cluster (c # ids) acc = Inl e"
  using assms by (simp add: explain_loop.simps bind_def)

lemma set_np_unique: "set (np_unique xs) = set xs"
  by (simp add: np_unique_def)

lemma np_unique_ascending: "sorted_wrt (<) (np_unique xs)"
  by (simp add: np_unique_def strict_sorted_iff)

lemma length_np_unique: "length (np_unique xs) = card (set xs)"
proof -
  have "distinct (np_unique xs)" by (simp add: np_unique_def)
  then have "length (np_unique xs) = card (set (np_unique xs))"
    by (simp add: distinct_card)
  then show ?thesis by (simp add: set_np_unique)
qed

lemma explain_Inr:
  "explain X_subset proj regions cluster = Inr cfs \<longleftrightarrow>
     list_all2 (\<lambda>c cf. cluster_cf X_subset proj regions cluster c = Inr cf) (np_unique cluster) cfs"
  by (simp add: explain_def explain_loop_Inr)

lemma explain_nth:
  assumes "explain X_subset proj regions cluster = Inr cfs" and "n < length cfs"
  shows "np_unique cluster ! n \<in> set cluster"
    and "cluster_cf X_subset proj regions cluster (np_unique cluster ! n) = Inr (cfs ! n)"
proof -
  from assms(1) have l: "list_all2 (\<lambda>c cf. cluster_cf X_subset proj regions cluster c = Inr cf)
      (np_unique cluster) cfs"
    by (simp add: explain_Inr)
  with assms(2) have "n < length (np_unique cluster)"
    by (simp add: list_all2_lengthD)
  then have "np_unique cluster ! n \<in> set (np_unique cluster)" by simp
  then show "np_unique cluster ! n \<in> set cluster"
    by (simp add: set_np_unique)
  from l assms(2)
  show "cluster_cf X_subset proj regions cluster (np_unique cluster ! n) = Inr (cfs ! n)"
    by (simp add: list_all2_conv_all_nth)
qed

lemma all_records_exist:
  "\<forall>c \<in> set ids. \<exists>cf. f c = Inr cf \<Longrightarrow> \<exists>cfs. list_all2 (\<lambda>c cf. f c = Inr cf) ids cfs"
proof (induction ids)
  case Nil
  then show ?case by simp
next
  case (Cons c ids)
  then obtain cf cfs where "f c = Inr cf" "list_all2 (\<lambda>c cf. f c = Inr cf) ids cfs"
    by auto
  then have "list_all2 (\<lambda>c cf. f c = Inr cf) (c # ids) (cf # cfs)" by simp
  then show ?case by blast
qed

lemma explain_ok:
  assumes "valid_input X_subset proj regions cluster" and "{- 1, 0, 1} \<subseteq> set regions"
  shows "\<exists>cfs. explain X_subset proj regions cluster = Inr cfs"
proof -
  have "\<forall>c \<in> set (np_unique cluster). \<exists>cf. cluster_cf X_subset proj regions cluster c = Inr cf"
  proof
    fix c assume "c \<in> set (np_unique cluster)"
    then have "c \<in> set cluster" by (simp add: set_np_unique)
    from cluster_cf_ok [OF assms(1) this assms(2)]
    show "\<exists>cf. cluster_cf X_subset proj regions cluster c = Inr cf" by blast
  qed
  then have "\<exists>cfs. list_all2 (\<lambda>c cf. cluster_cf X_subset proj regions cluster c = Inr cf)
      (np_unique cluster) cfs"
    by (rule all_records_exist)
  then show ?thesis by (simp add: explain_Inr)
qed

lemma explain_fail:
  assumes "valid_input X_subset proj regions cluster" and "\<not> {- 1, 0, 1} \<subseteq> set regions"
    and "cluster \<noteq> []"
  shows "explain X_subset proj regions cluster = Inl ValueError"
proof -
  from assms(3) have "np_unique cluster \<noteq> []"
    using set_np_unique [of cluster] by (metis set_empty)
  then obtain c ids where u: "np_unique cluster = c # ids" by (cases "np_unique cluster") auto
  then have "c \<in> set cluster"
    using set_np_unique [of cluster] by (metis list.set_intros(1))
  from cluster_cf_fail [OF assms(1) this assms(2)]
  show ?thesis
    by (simp add: explain_def u explain_loop_first_fails)
qed

lemma explain_no_samples: "explain X_subset proj regions [] = Inr []"
  by (simp add: explain_def np_unique_def explain_loop.simps)

section \<open>Evaluating the worked example\<close>

lemma ex_valid: "valid_input ex_X ex_proj ex_regions ex_cluster"
  by (simp add: valid_input_def wf_array2_def ex_X_def ex_proj_def ex_regions_def
      ex_cluster_def np_array2_def)

lemma ex_unique: "np_unique ex_cluster = [0, 1, 3, 5]"
  by (simp add: np_unique_def ex_cluster_def)

lemma ex_explain: "explain ex_X ex_proj ex_regions ex_cluster = Inr ex_counterfactuals"
  by code_simp

lemma ex_empty_cluster:
  "cluster_cf ex_X ex_proj ex_regions ex_cluster 2 =
     Inr \<lparr>region_dist = [NaN, NaN, NaN], region = - 1,
          sample_euc = [(- 1, 3), (0, 2), (1, 0)], sample_rfk = [(- 1, 3), (0, 2), (1, 0)],
          proto_rfk = [NaN], proto_euc = [NaN, NaN]\<rparr>"
  by code_simp

lemma ex_only_neutral:
  "explain ex_X ex_proj (replicate 10 0) ex_cluster = Inl ValueError"
  by code_simp


section \<open>The claims about the explanation step\<close>

text \<open>
  Claim C10. For every cluster assignment, \<open>explain\<close> produces exactly one record per
  distinct cluster identifier that occurs in the assignment, in ascending order of the
  identifier. An identifier below the number of clusters that no sample is assigned to
  is skipped silently, so the number of records is the number of distinct assigned
  identifiers and can be smaller than the number of clusters: four records for the six
  clusters of the example.
\<close>

theorem explain_one_record_per_id:
  "(explain X_subset proj regions cluster = Inr cfs \<longrightarrow>
      length cfs = card (set cluster) \<and>
      length (np_unique cluster) = length cfs \<and>
      set (np_unique cluster) = set cluster \<and>
      sorted_wrt (<) (np_unique cluster) \<and>
      (\<forall>n < length cfs.
         cluster_cf X_subset proj regions cluster (np_unique cluster ! n) = Inr (cfs ! n)))
   \<and> (valid_input X_subset proj regions cluster \<and> {- 1, 0, 1} \<subseteq> set regions \<longrightarrow>
        (\<exists>cfs. explain X_subset proj regions cluster = Inr cfs))
   \<and> (\<forall>c \<in> set ex_cluster. 0 \<le> c \<and> c < 6)
   \<and> (\<exists>cfs. explain ex_X ex_proj ex_regions ex_cluster = Inr cfs \<and> length cfs = 4)"
proof (intro conjI impI)
  assume e: "explain X_subset proj regions cluster = Inr cfs"
  then have l: "list_all2 (\<lambda>c cf. cluster_cf X_subset proj regions cluster c = Inr cf)
      (np_unique cluster) cfs"
    by (simp add: explain_Inr)
  then show len: "length (np_unique cluster) = length cfs"
    by (rule list_all2_lengthD)
  then show "length cfs = card (set cluster)"
    by (simp add: length_np_unique)
  show "set (np_unique cluster) = set cluster"
    by (rule set_np_unique)
  show "sorted_wrt (<) (np_unique cluster)"
    by (rule np_unique_ascending)
  show "\<forall>n < length cfs.
         cluster_cf X_subset proj regions cluster (np_unique cluster ! n) = Inr (cfs ! n)"
    using l by (simp add: list_all2_conv_all_nth)
next
  assume "valid_input X_subset proj regions cluster \<and> {- 1, 0, 1} \<subseteq> set regions"
  then show "\<exists>cfs. explain X_subset proj regions cluster = Inr cfs"
    by (simp add: explain_ok)
next
  show "\<forall>c \<in> set ex_cluster. 0 \<le> c \<and> c < 6"
    by (simp add: ex_cluster_def)
  show "\<exists>cfs. explain ex_X ex_proj ex_regions ex_cluster = Inr cfs \<and> length cfs = 4"
    by (simp add: ex_explain ex_counterfactuals_def)
qed

theorem explain_one_record_per_id_witness:
  "explain ex_X ex_proj ex_regions ex_cluster = Inr ex_counterfactuals
   \<and> valid_input ex_X ex_proj ex_regions ex_cluster
   \<and> {- 1, 0, 1} \<subseteq> set ex_regions
   \<and> length ex_counterfactuals = card (set ex_cluster)
   \<and> length ex_counterfactuals = 4
   \<and> np_unique ex_cluster = [0, 1, 3, 5]
   \<and> cluster_cf ex_X ex_proj ex_regions ex_cluster 3 = Inr (ex_counterfactuals ! 2)"
proof -
  have n: "(2::nat) < length ex_counterfactuals"
    by (simp add: ex_counterfactuals_def)
  have r: "{- 1, 0, 1} \<subseteq> set ex_regions"
    by (simp add: ex_regions_def)
  from explain_one_record_per_id [of ex_X ex_proj ex_regions ex_cluster ex_counterfactuals]
    ex_explain
  have "length ex_counterfactuals = card (set ex_cluster)"
    and "\<forall>n < length ex_counterfactuals.
       cluster_cf ex_X ex_proj ex_regions ex_cluster (np_unique ex_cluster ! n)
         = Inr (ex_counterfactuals ! n)"
    by blast+
  with n have "length ex_counterfactuals = card (set ex_cluster)"
    and "cluster_cf ex_X ex_proj ex_regions ex_cluster (np_unique ex_cluster ! 2)
         = Inr (ex_counterfactuals ! 2)"
    by blast+
  moreover have "length ex_counterfactuals = 4"
    by (simp add: ex_counterfactuals_def)
  ultimately show ?thesis
    using ex_explain ex_valid r by (simp add: ex_unique)
qed

text \<open>
  Claim C8. \<open>explain\<close> fails when, for a requested region value among \<open>-1\<close>, \<open>0\<close> and
  \<open>1\<close>, no sample of the subset carries that value. The failure is the \<^verbatim>\<open>ValueError\<close>
  that \<^verbatim>\<open>np.argmin\<close> raises on the empty selection, which the specification names
  \<open>NoCandidateInRegion\<close>. A region value is requested as soon as there is a cluster,
  that is, a sample. On region data that holds only the value 0, resolving a region
  raises this error instead of returning a record.
\<close>

theorem explain_no_candidate:
  "(valid_input X_subset proj regions cluster \<and> cluster \<noteq> [] \<and>
      (\<exists>r \<in> {- 1, 0, 1}. r \<notin> set regions) \<longrightarrow>
        explain X_subset proj regions cluster = Inl ValueError)
   \<and> (valid_input X_subset proj regions cluster \<and> cluster_id \<in> set cluster \<and>
      (\<exists>r \<in> {- 1, 0, 1}. r \<notin> set regions) \<longrightarrow>
        cluster_cf X_subset proj regions cluster cluster_id = Inl ValueError)
   \<and> (r \<notin> set regions \<longrightarrow>
        nearest_samples X_subset proj regions X_proto proj_proto (r # rest) (euc, rfk)
          = Inl ValueError)
   \<and> explain ex_X ex_proj (replicate 10 0) ex_cluster = Inl ValueError
   \<and> nearest_samples ex_X ex_proj (replicate 10 0) [Fin 1, Fin 1] [Fin 1] [1] ([], [])
        = Inl ValueError"
proof (intro conjI impI)
  assume a: "valid_input X_subset proj regions cluster \<and> cluster \<noteq> [] \<and>
      (\<exists>r \<in> {- 1, 0, 1}. r \<notin> set regions)"
  then have "\<not> {- 1, 0, 1} \<subseteq> set regions" by auto
  with a show "explain X_subset proj regions cluster = Inl ValueError"
    by (simp add: explain_fail)
next
  assume a: "valid_input X_subset proj regions cluster \<and> cluster_id \<in> set cluster \<and>
      (\<exists>r \<in> {- 1, 0, 1}. r \<notin> set regions)"
  then have "\<not> {- 1, 0, 1} \<subseteq> set regions" by auto
  with a show "cluster_cf X_subset proj regions cluster cluster_id = Inl ValueError"
    by (simp add: cluster_cf_fail)
next
  assume "r \<notin> set regions"
  then show "nearest_samples X_subset proj regions X_proto proj_proto (r # rest) (euc, rfk)
          = Inl ValueError"
    by (rule nearest_samples_absent)
next
  show "explain ex_X ex_proj (replicate 10 0) ex_cluster = Inl ValueError"
    by (rule ex_only_neutral)
  show "nearest_samples ex_X ex_proj (replicate 10 0) [Fin 1, Fin 1] [Fin 1] [1] ([], [])
        = Inl ValueError"
    by (intro nearest_samples_absent) simp
qed

theorem explain_no_candidate_witness:
  "valid_input ex_X ex_proj ex_no_after ex_cluster \<and> ex_cluster \<noteq> [] \<and> 3 \<in> set ex_cluster
   \<and> - 1 \<notin> set ex_no_after
   \<and> explain ex_X ex_proj ex_no_after ex_cluster = Inl ValueError
   \<and> cluster_cf ex_X ex_proj ex_no_after ex_cluster 3 = Inl ValueError
   \<and> nearest_samples ex_X ex_proj ex_no_after [Fin 1, Fin 1] [Fin 1] [- 1, 0, 1] ([], [])
        = Inl ValueError"
proof -
  have v: "valid_input ex_X ex_proj ex_no_after ex_cluster"
    by (simp add: valid_input_def wf_array2_def ex_X_def ex_proj_def ex_no_after_def
        ex_cluster_def np_array2_def)
  have c: "ex_cluster \<noteq> []" "3 \<in> set ex_cluster"
    by (simp_all add: ex_cluster_def)
  have m: "- 1 \<notin> set ex_no_after"
    by (simp add: ex_no_after_def)
  then have e: "\<exists>r \<in> {- 1, 0, 1}. r \<notin> set ex_no_after" by blast
  from explain_no_candidate [of ex_X ex_proj ex_no_after ex_cluster 3 "- 1"
      "[Fin 1, Fin 1]" "[Fin 1]" "[0, 1]" "[]" "[]"] v c m e
  show ?thesis by blast
qed

text \<open>
  Claim C9, as amended. \<open>explain\<close> visits only the cluster identifiers that occur in the
  assignment. A cluster without members is never averaged: it gets no record and
  raises no error, and every record that is computed belongs to a cluster with at least
  one member. On valid input \<open>explain\<close> succeeds whenever each region value occurs,
  whatever identifiers are unused, and its only failure is the \<^verbatim>\<open>ValueError\<close> for an
  absent region value.
\<close>

theorem explain_skips_empty_clusters:
  "(valid_input X_subset proj regions cluster \<and> {- 1, 0, 1} \<subseteq> set regions \<longrightarrow>
      (\<exists>cfs. explain X_subset proj regions cluster = Inr cfs))
   \<and> (valid_input X_subset proj regions cluster \<and>
        explain X_subset proj regions cluster = Inl e \<longrightarrow>
          e = ValueError \<and> cluster \<noteq> [] \<and> \<not> {- 1, 0, 1} \<subseteq> set regions)
   \<and> (explain X_subset proj regions cluster = Inr cfs \<longrightarrow>
        length cfs = card (set cluster) \<and>
        (\<forall>n < length cfs.
           np_where_eq cluster (np_unique cluster ! n) \<noteq> [] \<and>
           cluster_cf X_subset proj regions cluster (np_unique cluster ! n) = Inr (cfs ! n)))"
proof (intro conjI impI allI)
  assume "valid_input X_subset proj regions cluster \<and> {- 1, 0, 1} \<subseteq> set regions"
  then show "\<exists>cfs. explain X_subset proj regions cluster = Inr cfs"
    by (simp add: explain_ok)
next
  assume a: "valid_input X_subset proj regions cluster \<and>
        explain X_subset proj regions cluster = Inl e"
  show ne: "cluster \<noteq> []"
  proof
    assume "cluster = []"
    with a show False by (simp add: explain_no_samples)
  qed
  show all: "\<not> {- 1, 0, 1} \<subseteq> set regions"
  proof
    assume "{- 1, 0, 1} \<subseteq> set regions"
    with a explain_ok [of X_subset proj regions cluster] show False by auto
  qed
  from a ne all show "e = ValueError"
    using explain_fail [of X_subset proj regions cluster] by simp
next
  assume e: "explain X_subset proj regions cluster = Inr cfs"
  then have l: "list_all2 (\<lambda>c cf. cluster_cf X_subset proj regions cluster c = Inr cf)
      (np_unique cluster) cfs"
    by (simp add: explain_Inr)
  then have len: "length (np_unique cluster) = length cfs"
    by (rule list_all2_lengthD)
  then show "length cfs = card (set cluster)"
    by (simp add: length_np_unique)
  fix n assume n: "n < length cfs"
  with len have "np_unique cluster ! n \<in> set (np_unique cluster)" by simp
  then show "np_where_eq cluster (np_unique cluster ! n) \<noteq> []"
    by (simp add: np_where_eq_empty set_np_unique)
  from l n show "cluster_cf X_subset proj regions cluster (np_unique cluster ! n) = Inr (cfs ! n)"
    by (simp add: list_all2_conv_all_nth)
qed

lemma ex_no_after_valid: "valid_input ex_X ex_proj ex_no_after ex_cluster"
  by (simp add: valid_input_def wf_array2_def ex_X_def ex_proj_def ex_no_after_def
      ex_cluster_def np_array2_def)

theorem explain_skips_empty_clusters_witness:
  "valid_input ex_X ex_proj ex_regions ex_cluster \<and> {- 1, 0, 1} \<subseteq> set ex_regions
   \<and> explain ex_X ex_proj ex_regions ex_cluster = Inr ex_counterfactuals
   \<and> length ex_counterfactuals = card (set ex_cluster)
   \<and> np_where_eq ex_cluster (np_unique ex_cluster ! 3) \<noteq> []
   \<and> cluster_cf ex_X ex_proj ex_regions ex_cluster (np_unique ex_cluster ! 3)
        = Inr (ex_counterfactuals ! 3)
   \<and> valid_input ex_X ex_proj ex_no_after ex_cluster
   \<and> explain ex_X ex_proj ex_no_after ex_cluster = Inl ValueError
   \<and> ex_cluster \<noteq> [] \<and> \<not> {- 1, 0, 1} \<subseteq> set ex_no_after"
proof -
  have n: "(3::nat) < length ex_counterfactuals"
    by (simp add: ex_counterfactuals_def)
  have r: "{- 1, 0, 1} \<subseteq> set ex_regions"
    by (simp add: ex_regions_def)
  have f: "explain ex_X ex_proj ex_no_after ex_cluster = Inl ValueError"
    using explain_fail [OF ex_no_after_valid] by (simp add: ex_no_after_def ex_cluster_def)
  from explain_skips_empty_clusters
    [of ex_X ex_proj ex_regions ex_cluster ValueError ex_counterfactuals] ex_explain n
  have a: "length ex_counterfactuals = card (set ex_cluster)
     \<and> np_where_eq ex_cluster (np_unique ex_cluster ! 3) \<noteq> []
     \<and> cluster_cf ex_X ex_proj ex_regions ex_cluster (np_unique ex_cluster ! 3)
        = Inr (ex_counterfactuals ! 3)"
    by blast
  from explain_skips_empty_clusters
    [of ex_X ex_proj ex_no_after ex_cluster ValueError ex_counterfactuals] ex_no_after_valid f
  have b: "ex_cluster \<noteq> [] \<and> \<not> {- 1, 0, 1} \<subseteq> set ex_no_after"
    by blast
  from a b f r show ?thesis
    using ex_valid ex_no_after_valid ex_explain by blast
qed

theorem empty_cluster_counterexample:
  "(2::int) \<notin> set ex_cluster \<and> (0::int) \<le> 2 \<and> (2::int) < 6
   \<and> explain ex_X ex_proj ex_regions ex_cluster = Inr ex_counterfactuals
   \<and> length ex_counterfactuals = 4
   \<and> cluster_cf ex_X ex_proj ex_regions ex_cluster 2 =
       Inr \<lparr>region_dist = [NaN, NaN, NaN], region = - 1,
            sample_euc = [(- 1, 3), (0, 2), (1, 0)], sample_rfk = [(- 1, 3), (0, 2), (1, 0)],
            proto_rfk = [NaN], proto_euc = [NaN, NaN]\<rparr>"
  using ex_explain ex_empty_cluster
  by (simp add: ex_cluster_def ex_counterfactuals_def)

lemma first_max_bin_range: "[- 1, 0, 1] ! first_max_bin rs \<in> {- 1, 0, (1::int)}"
  by (simp add: first_max_bin_def)

lemma first_max_bin_max:
  assumes "w \<in> {- 1, 0, 1}"
  shows "bin_average rs w \<le> bin_average rs ([- 1, 0, 1] ! first_max_bin rs)"
  using assms by (auto simp: first_max_bin_def)

lemma first_max_bin_first:
  assumes "w \<in> {- 1, 0, 1}" and "w < [- 1, 0, 1] ! first_max_bin rs"
  shows "bin_average rs w < bin_average rs ([- 1, 0, 1] ! first_max_bin rs)"
  using assms by (auto simp: first_max_bin_def split: if_splits)

lemma first_max_bin_tie:
  assumes "count_list rs (- 1) = count_list rs 1" and "count_list rs 0 = 0"
  shows "[- 1, 0, 1] ! first_max_bin rs = (- 1 :: int)"
proof -
  have "bin_average rs 0 = 0" and "bin_average rs (- 1) = bin_average rs 1"
    and "0 \<le> bin_average rs (- 1)"
    using assms by (simp_all add: bin_average_def)
  then show ?thesis
    by (simp add: first_max_bin_def)
qed

text \<open>
  Claim C3. For every non-empty cluster, the region verdict is the value among \<open>-1\<close>,
  \<open>0\<close> and \<open>1\<close> whose one-hot bin has the maximal average over the cluster's members,
  the first bin in the order \<open>-1\<close>, \<open>0\<close>, \<open>1\<close> winning exact ties. A cluster with as
  many members of region \<open>-1\<close> as of region \<open>1\<close> and none of region \<open>0\<close> gets the
  verdict \<open>-1\<close>.
\<close>

theorem region_verdict_first_max:
  "(valid_input X_subset proj regions cluster \<and> cluster_id \<in> set cluster \<and>
      {- 1, 0, 1} \<subseteq> set regions \<longrightarrow>
        (\<exists>cf. cluster_cf X_subset proj regions cluster cluster_id = Inr cf))
   \<and> (valid_input X_subset proj regions cluster \<and> cluster_id \<in> set cluster \<and>
        cluster_cf X_subset proj regions cluster cluster_id = Inr cf \<longrightarrow>
          member_regions regions cluster cluster_id \<noteq> [] \<and>
          region_dist cf =
            [Fin (bin_average (member_regions regions cluster cluster_id) (- 1)),
             Fin (bin_average (member_regions regions cluster cluster_id) 0),
             Fin (bin_average (member_regions regions cluster cluster_id) 1)] \<and>
          region cf \<in> {- 1, 0, 1} \<and>
          (\<forall>w \<in> {- 1, 0, 1}.
             bin_average (member_regions regions cluster cluster_id) w
               \<le> bin_average (member_regions regions cluster cluster_id) (region cf)) \<and>
          (\<forall>w \<in> {- 1, 0, 1}. w < region cf \<longrightarrow>
             bin_average (member_regions regions cluster cluster_id) w
               < bin_average (member_regions regions cluster cluster_id) (region cf)) \<and>
          (count_list (member_regions regions cluster cluster_id) (- 1)
             = count_list (member_regions regions cluster cluster_id) 1 \<and>
           count_list (member_regions regions cluster cluster_id) 0 = 0 \<longrightarrow>
             region cf = - 1))
   \<and> (explain X_subset proj regions cluster = Inr cfs \<and> n < length cfs \<longrightarrow>
        np_unique cluster ! n \<in> set cluster \<and>
        cluster_cf X_subset proj regions cluster (np_unique cluster ! n) = Inr (cfs ! n))"
proof (intro conjI impI ballI)
  assume "valid_input X_subset proj regions cluster \<and> cluster_id \<in> set cluster \<and>
      {- 1, 0, 1} \<subseteq> set regions"
  then show "\<exists>cf. cluster_cf X_subset proj regions cluster cluster_id = Inr cf"
    using cluster_cf_ok [of X_subset proj regions cluster cluster_id] by blast
next
  let ?rs = "member_regions regions cluster cluster_id"
  assume a: "valid_input X_subset proj regions cluster \<and> cluster_id \<in> set cluster \<and>
        cluster_cf X_subset proj regions cluster cluster_id = Inr cf"
  then have rec: "record_of X_subset proj regions cluster cluster_id cf"
    by (simp add: cluster_cf_record)
  then have v: "region cf = [- 1, 0, 1] ! first_max_bin ?rs"
    by (simp add: record_of_def)
  from a show "?rs \<noteq> []"
    by (simp add: member_regions_def np_where_eq_empty)
  from rec show "region_dist cf =
      [Fin (bin_average ?rs (- 1)), Fin (bin_average ?rs 0), Fin (bin_average ?rs 1)]"
    by (simp add: record_of_def)
  show "region cf \<in> {- 1, 0, 1}"
    unfolding v by (rule first_max_bin_range)
  show "bin_average ?rs w \<le> bin_average ?rs (region cf)" if "w \<in> {- 1, 0, 1}" for w
    unfolding v using that by (rule first_max_bin_max)
  show "bin_average ?rs w < bin_average ?rs (region cf)"
    if "w \<in> {- 1, 0, 1}" "w < region cf" for w
    using that unfolding v by (rule first_max_bin_first)
  show "region cf = - 1"
    if "count_list ?rs (- 1) = count_list ?rs 1 \<and> count_list ?rs 0 = 0"
    unfolding v using that by (simp add: first_max_bin_tie)
next
  assume e: "explain X_subset proj regions cluster = Inr cfs \<and> n < length cfs"
  then show "np_unique cluster ! n \<in> set cluster"
    using explain_nth(1) [of X_subset proj regions cluster cfs n] by simp
  from e show "cluster_cf X_subset proj regions cluster (np_unique cluster ! n) = Inr (cfs ! n)"
    using explain_nth(2) [of X_subset proj regions cluster cfs n] by simp
qed

lemma ex_members:
  "member_regions ex_regions ex_cluster 1 = [1, - 1]"
  "np_where_eq ex_cluster 3 = [3, 4, 5]"
  by (simp_all add: member_regions_def np_where_eq_def ex_regions_def ex_cluster_def
      upt_rec numeral_eq_Suc)

theorem region_verdict_first_max_witness:
  "valid_input ex_X ex_proj ex_regions ex_cluster \<and> 1 \<in> set ex_cluster
   \<and> {- 1, 0, 1} \<subseteq> set ex_regions
   \<and> explain ex_X ex_proj ex_regions ex_cluster = Inr ex_counterfactuals
   \<and> 1 < length ex_counterfactuals \<and> np_unique ex_cluster ! 1 = 1
   \<and> cluster_cf ex_X ex_proj ex_regions ex_cluster 1 = Inr (ex_counterfactuals ! 1)
   \<and> member_regions ex_regions ex_cluster 1 = [1, - 1]
   \<and> count_list (member_regions ex_regions ex_cluster 1) (- 1)
       = count_list (member_regions ex_regions ex_cluster 1) 1
   \<and> count_list (member_regions ex_regions ex_cluster 1) 0 = 0
   \<and> region (ex_counterfactuals ! 1) = - 1
   \<and> region_dist (ex_counterfactuals ! 1) = [Fin (1 / 2), Fin 0, Fin (1 / 2)]
   \<and> bin_average (member_regions ex_regions ex_cluster 1) 1
       \<le> bin_average (member_regions ex_regions ex_cluster 1) (region (ex_counterfactuals ! 1))"
proof -
  have c: "1 \<in> set ex_cluster" by (simp add: ex_cluster_def)
  have r: "{- 1, 0, 1} \<subseteq> set ex_regions" by (simp add: ex_regions_def)
  have t: "count_list (member_regions ex_regions ex_cluster 1) (- 1)
       = count_list (member_regions ex_regions ex_cluster 1) 1
     \<and> count_list (member_regions ex_regions ex_cluster 1) 0 = 0"
    by (simp add: ex_members)
  have w: "(1::int) \<in> {- 1, 0, 1}" by simp
  have n: "1 < length ex_counterfactuals" by (simp add: ex_counterfactuals_def)
  have u: "np_unique ex_cluster ! 1 = 1" by (simp add: ex_unique)
  note verdict = region_verdict_first_max
    [of ex_X ex_proj ex_regions ex_cluster 1 "ex_counterfactuals ! 1" ex_counterfactuals 1]
  from verdict ex_explain n
  have "cluster_cf ex_X ex_proj ex_regions ex_cluster (np_unique ex_cluster ! 1)
      = Inr (ex_counterfactuals ! 1)"
    by blast
  with u have rcd: "cluster_cf ex_X ex_proj ex_regions ex_cluster 1 = Inr (ex_counterfactuals ! 1)"
    by simp
  from verdict ex_valid c rcd t w
  have "region (ex_counterfactuals ! 1) = - 1
    \<and> bin_average (member_regions ex_regions ex_cluster 1) 1
       \<le> bin_average (member_regions ex_regions ex_cluster 1) (region (ex_counterfactuals ! 1))"
    by blast
  moreover have "region_dist (ex_counterfactuals ! 1) = [Fin (1 / 2), Fin 0, Fin (1 / 2)]"
    by (simp add: ex_counterfactuals_def)
  ultimately show ?thesis
    using ex_valid c r rcd t ex_members(1) ex_explain n u by blast
qed










end
